theory Spec2Isabelle
  imports Complex_Main "HOL-Library.Word" "HOL-Library.Signed_Division" "HOL-Library.Monad_Syntax"
    "HOL-Library.Log_Nat"
begin

unbundle bit_operations_syntax

section \<open>Machine types\<close>

text \<open>
  \<open>u32\<close> and \<open>u64\<close> are the unsigned types of Common/CommonTypes.h; their arithmetic
  wraps. A signed value (\<open>int\<close>, \<open>s64\<close>) is modelled by the mathematical integer it
  holds; the places where the source converts between widths are written out
  (\<open>s64_of_u64\<close>, \<open>int_of_s64\<close>). Signed overflow is undefined in C++ and outside the
  model: pixel coordinates and message counts are far below \<open>2 ^ 31\<close>.

  The floats of OnScreenDisplay.cpp (positions, window heights, the alpha of a
  message) are modelled by the real numbers they denote. The comparisons that decide
  what the draw pass does are made between a value converted from an integer and one
  of the constants 0, 1, 1000 and 5000; the conversion is monotone and the constants
  are representable, so these comparisons come out as they do on the integers.

  The floats of Present.cpp decide pixel dimensions through \<open>std::ceil\<close>, where one
  unit in the last place can move a dimension by 4 pixels. They are modelled with
  their rounding, their infinities and NaN: section ``IEEE 754 arithmetic''.
\<close>

type_synonym u32 = "32 word"
type_synonym u64 = "64 word"

definition s64_of_u64 :: "u64 \<Rightarrow> int" where
  "s64_of_u64 x = sint x"

definition int_of_s64 :: "int \<Rightarrow> int" where
  "int_of_s64 x = sint (word_of_int x :: 32 word)"

definition std_clamp :: "real \<Rightarrow> real \<Rightarrow> real \<Rightarrow> real" where
  "std_clamp v lo hi = (if v < lo then lo else if hi < v then hi else v)"

text \<open>
  Integer division in C++ truncates towards zero (\<open>sdiv\<close>, and \<open>smod\<close> for \<open>%\<close>); a
  division by zero traps, which is the result \<open>None\<close>.
\<close>

definition int_div :: "int \<Rightarrow> int \<Rightarrow> int option" where
  "int_div a b = (if b = 0 then None else Some (a sdiv b))"

section \<open>IEEE 754 arithmetic\<close>

text \<open>
  A value of a binary floating-point format: a finite value is given by the rational
  number it denotes (\<open>Finite 0\<close> is the positive zero), next to the negative zero, the
  two infinities and NaN. \<open>binary32\<close> is the format of \<open>float\<close>, \<open>binary64\<close> that of
  \<open>double\<close>: the precision counts the bits of the significand, the hidden one
  included, and \<open>emax\<close> is the largest exponent.
\<close>

datatype ieee = Finite rat | MinusZero | PlusInfinity | MinusInfinity | NaN

type_synonym float = ieee

type_synonym double = ieee

record format =
  precision :: nat
  emax :: int

definition binary32 :: format where
  "binary32 = \<lparr>precision = 24, emax = 127\<rparr>"

definition binary64 :: format where
  "binary64 = \<lparr>precision = 53, emax = 1023\<rparr>"

text \<open>
  Rounding to nearest, ties to even, the default rounding mode, which the source never
  changes. \<open>ilog2 a\<close> is the exponent of a positive rational, \<open>\<lfloor>log\<^sub>2 a\<rfloor>\<close>. In
  \<open>round_to\<close> the exponent \<open>e\<close> is that of the value, but not below the exponent of
  the subnormal numbers; \<open>u\<close> is the unit in the last place at that exponent, and the
  value is rounded to a multiple of \<open>u\<close>. A result of magnitude \<open>2 ^ (emax + 1)\<close> or
  more overflows to an infinity; a result that rounds to zero keeps its sign.
\<close>

definition pow2 :: "int \<Rightarrow> rat" where
  "pow2 k = (if 0 \<le> k then 2 ^ nat k else 1 / 2 ^ nat (- k))"

definition ilog2 :: "rat \<Rightarrow> int" where
  "ilog2 a = (if 1 \<le> a then bitlen \<lfloor>a\<rfloor> - 1 else - bitlen (\<lceil>1 / a\<rceil> - 1))"

definition round_half_even :: "rat \<Rightarrow> int" where
  "round_half_even x =
     (let f = \<lfloor>x\<rfloor>; r = x - of_int f
      in if r < 1 / 2 then f else if 1 / 2 < r then f + 1 else if even f then f else f + 1)"

definition round_to :: "format \<Rightarrow> rat \<Rightarrow> ieee" where
  "round_to fmt q =
     (if q = 0 then Finite 0
      else
        (let a = \<bar>q\<bar>;
             e = max (ilog2 a) (1 - emax fmt);
             u = pow2 (e - (int (precision fmt) - 1));
             m = round_half_even (a / u);
             r = of_int m * u
         in if pow2 (emax fmt + 1) \<le> r then (if q < 0 then MinusInfinity else PlusInfinity)
            else if m = 0 then (if q < 0 then MinusZero else Finite 0)
            else Finite (if q < 0 then - r else r)))"

fun is_negative :: "ieee \<Rightarrow> bool" where
  "is_negative (Finite q) = (q < 0)"
| "is_negative MinusZero = True"
| "is_negative MinusInfinity = True"
| "is_negative PlusInfinity = False"
| "is_negative NaN = False"

fun is_zero :: "ieee \<Rightarrow> bool" where
  "is_zero (Finite q) = (q = 0)"
| "is_zero MinusZero = True"
| "is_zero x = False"

fun is_infinite :: "ieee \<Rightarrow> bool" where
  "is_infinite PlusInfinity = True"
| "is_infinite MinusInfinity = True"
| "is_infinite x = False"

fun rat_of :: "ieee \<Rightarrow> rat" where
  "rat_of (Finite q) = q"
| "rat_of x = 0"

definition signed_zero :: "bool \<Rightarrow> ieee" where
  "signed_zero negative = (if negative then MinusZero else Finite 0)"

definition signed_infinity :: "bool \<Rightarrow> ieee" where
  "signed_infinity negative = (if negative then MinusInfinity else PlusInfinity)"

text \<open>
  Multiplication, division and subtraction: the exact result, rounded. The special
  cases are those of the standard: an operation on a NaN, \<open>0 * \<infinity>\<close>, \<open>0 / 0\<close>,
  \<open>\<infinity> / \<infinity>\<close> and \<open>\<infinity> - \<infinity>\<close> give NaN; a finite value other than zero divided by zero
  gives an infinity; the sign of a product or quotient is the exclusive or of the
  signs; a difference that is exactly zero is \<open>+0\<close>, except \<open>-0 - +0 = -0\<close>.
\<close>

definition fmul :: "format \<Rightarrow> ieee \<Rightarrow> ieee \<Rightarrow> ieee" where
  "fmul fmt a b =
     (if a = NaN \<or> b = NaN then NaN
      else if (is_infinite a \<and> is_zero b) \<or> (is_zero a \<and> is_infinite b) then NaN
      else if is_infinite a \<or> is_infinite b then signed_infinity (is_negative a \<noteq> is_negative b)
      else if is_zero a \<or> is_zero b then signed_zero (is_negative a \<noteq> is_negative b)
      else round_to fmt (rat_of a * rat_of b))"

definition fdiv :: "format \<Rightarrow> ieee \<Rightarrow> ieee \<Rightarrow> ieee" where
  "fdiv fmt a b =
     (if a = NaN \<or> b = NaN then NaN
      else if (is_infinite a \<and> is_infinite b) \<or> (is_zero a \<and> is_zero b) then NaN
      else if is_infinite a \<or> is_zero b then signed_infinity (is_negative a \<noteq> is_negative b)
      else if is_infinite b \<or> is_zero a then signed_zero (is_negative a \<noteq> is_negative b)
      else round_to fmt (rat_of a / rat_of b))"

definition fsub :: "format \<Rightarrow> ieee \<Rightarrow> ieee \<Rightarrow> ieee" where
  "fsub fmt a b =
     (if a = NaN \<or> b = NaN then NaN
      else if is_infinite a \<and> is_infinite b
      then (if is_negative a = is_negative b then NaN else a)
      else if is_infinite a then a
      else if is_infinite b then signed_infinity (\<not> is_negative b)
      else if rat_of a - rat_of b = 0
      then signed_zero (is_zero a \<and> is_negative a \<and> \<not> is_negative b)
      else round_to fmt (rat_of a - rat_of b))"

text \<open>
  Comparisons: false whenever an operand is NaN; the two zeros are equal.
\<close>

fun order_key :: "ieee \<Rightarrow> int \<times> rat" where
  "order_key MinusInfinity = (- 1, 0)"
| "order_key PlusInfinity = (1, 0)"
| "order_key x = (0, rat_of x)"

definition fle :: "ieee \<Rightarrow> ieee \<Rightarrow> bool" where
  "fle a b \<longleftrightarrow> a \<noteq> NaN \<and> b \<noteq> NaN \<and>
     (fst (order_key a) < fst (order_key b) \<or>
      (fst (order_key a) = fst (order_key b) \<and> snd (order_key a) \<le> snd (order_key b)))"

definition flt :: "ieee \<Rightarrow> ieee \<Rightarrow> bool" where
  "flt a b \<longleftrightarrow> a \<noteq> NaN \<and> b \<noteq> NaN \<and>
     (fst (order_key a) < fst (order_key b) \<or>
      (fst (order_key a) = fst (order_key b) \<and> snd (order_key a) < snd (order_key b)))"

definition fge :: "ieee \<Rightarrow> ieee \<Rightarrow> bool" where
  "fge a b \<longleftrightarrow> fle b a"

definition fgt :: "ieee \<Rightarrow> ieee \<Rightarrow> bool" where
  "fgt a b \<longleftrightarrow> flt b a"

text \<open>
  Conversions. \<open>static_cast<float>\<close> of an \<open>int\<close> rounds; a \<open>float\<close> becomes a
  \<open>double\<close> unchanged. \<open>std::ceil\<close> and \<open>std::round\<close> (halfway cases away from zero)
  return a floating-point value, exactly, and a result of zero takes the sign of the
  argument. \<open>static_cast<int>\<close> of a floating-point value truncates towards zero; the
  behaviour is undefined when the truncated value is not a value of \<open>int\<close> (32 bits),
  so for NaN and the infinities too: the result \<open>None\<close>.
\<close>

definition float_of_int :: "int \<Rightarrow> float" where
  "float_of_int n = round_to binary32 (of_int n)"

definition double_of_float :: "float \<Rightarrow> double" where
  "double_of_float x = x"

fun std_ceil :: "ieee \<Rightarrow> ieee" where
  "std_ceil (Finite q) = (if \<lceil>q\<rceil> = 0 \<and> q < 0 then MinusZero else Finite (of_int \<lceil>q\<rceil>))"
| "std_ceil x = x"

fun std_round :: "ieee \<Rightarrow> ieee" where
  "std_round (Finite q) =
     (if 0 \<le> q then Finite (of_int \<lfloor>q + 1 / 2\<rfloor>)
      else if \<lceil>q - 1 / 2\<rceil> = 0 then MinusZero else Finite (of_int \<lceil>q - 1 / 2\<rceil>))"
| "std_round x = x"

fun int_of_float :: "ieee \<Rightarrow> int option" where
  "int_of_float (Finite q) =
     (let t = (if 0 \<le> q then \<lfloor>q\<rfloor> else \<lceil>q\<rceil>)
      in if - (2 ^ 31) \<le> t \<and> t < 2 ^ 31 then Some t else None)"
| "int_of_float MinusZero = Some 0"
| "int_of_float x = None"

section \<open>OnScreenDisplay.cpp\<close>

definition LEFT_MARGIN :: real where
  "LEFT_MARGIN = 10"

definition TOP_MARGIN :: real where
  "TOP_MARGIN = 10"

definition WINDOW_PADDING :: real where
  "WINDOW_PADDING = 4"

definition MESSAGE_FADE_TIME :: real where
  "MESSAGE_FADE_TIME = 1000"

definition MESSAGE_DROP_TIME :: real where
  "MESSAGE_DROP_TIME = 5000"

subsection \<open>The stopwatch of a message\<close>

text \<open>
  Modelled from the spec: \<open>Common::Timer\<close> (Common/Timer.h) is not among the sources.
  The spec describes it as a monotonic per-message stopwatch: a creation timestamp,
  compared against a monotonic clock read at render time, \<open>elapsed_ms\<close> being the
  difference. The clock is read in milliseconds as a \<open>u64\<close>; every function that
  reads it takes the reading as an argument.
\<close>

record Timer =
  m_start_ms :: u64

definition Start :: "u64 \<Rightarrow> Timer" where
  "Start now = \<lparr>m_start_ms = now\<rparr>"

definition ElapsedMs :: "u64 \<Rightarrow> Timer \<Rightarrow> u64" where
  "ElapsedMs now t = now - m_start_ms t"

subsection \<open>Messages\<close>

text \<open>
  \<open>struct Message\<close>. The field \<open>text\<close> of the source is \<open>msg_text\<close> here. The
  constructor starts the timer, so it takes the clock reading.
\<close>

record Message =
  msg_text :: string
  timer :: Timer
  duration :: u32
  ever_drawn :: bool
  color :: u32

definition Message_init :: "u64 \<Rightarrow> string \<Rightarrow> u32 \<Rightarrow> u32 \<Rightarrow> Message" where
  "Message_init now text' duration' color' =
     \<lparr>msg_text = text', timer = Start now, duration = duration',
      ever_drawn = False, color = color'\<rparr>"

text \<open>
  \<open>s64 TimeRemaining() const { return duration - timer.ElapsedMs(); }\<close>: the
  subtraction is done in \<open>u64\<close> (the \<open>u32\<close> operand is widened) and the result is
  converted to \<open>s64\<close>.
\<close>

definition TimeRemaining :: "u64 \<Rightarrow> Message \<Rightarrow> int" where
  "TimeRemaining now msg = s64_of_u64 (ucast (duration msg) - ElapsedMs now (timer msg))"

subsection \<open>The message container\<close>

text \<open>
  \<open>enum class MessageType\<close> is declared in OnScreenDisplay.h, which is not among the
  sources: a category is modelled by the underlying value of its enumerator, and the
  value of \<open>MessageType::Typeless\<close> is a parameter of the functions that use it.

  \<open>std::multimap<MessageType, Message>\<close> is the list of its entries in iteration
  order: sorted by key, entries of one key in the order they were inserted.
  \<open>emplace\<close> puts the new entry behind the last entry whose key is not greater;
  \<open>erase(key)\<close> removes every entry of that key.
\<close>

type_synonym MessageType = int

type_synonym multimap = "(MessageType \<times> Message) list"

definition emplace :: "MessageType \<Rightarrow> Message \<Rightarrow> multimap \<Rightarrow> multimap" where
  "emplace k v xs =
     takeWhile (\<lambda>e. fst e \<le> k) xs @ (k, v) # dropWhile (\<lambda>e. fst e \<le> k) xs"

definition erase :: "MessageType \<Rightarrow> multimap \<Rightarrow> multimap" where
  "erase k xs = filter (\<lambda>e. fst e \<noteq> k) xs"

definition count_key :: "MessageType \<Rightarrow> multimap \<Rightarrow> nat" where
  "count_key k xs = length (filter (\<lambda>e. fst e = k) xs)"

text \<open>The globals of the namespace that the message functions read and write.\<close>

record OSD =
  s_obscured_pixels_left :: int
  s_obscured_pixels_top :: int
  s_messages :: multimap

definition OSD_init :: OSD where
  "OSD_init = \<lparr>s_obscured_pixels_left = 0, s_obscured_pixels_top = 0, s_messages = []\<rparr>"

subsection \<open>Rendering\<close>

text \<open>
  The immediate-mode UI library is external. What the message functions read from it
  is a parameter: the framebuffer scale, and for a window (its index and text) the
  height \<open>ImGui::GetWindowSize().y\<close> when \<open>ImGui::Begin\<close> returns true, \<open>None\<close> when it
  returns false. What they send to it is recorded as one \<open>DrawCall\<close> per call of
  \<open>DrawMessage\<close>: the window index, the position, the alpha pushed as style variable,
  and the colour and text passed to \<open>ImGui::TextColored\<close>, which is called only when
  \<open>ImGui::Begin\<close> returns true (\<open>None\<close> when the text is not rendered).
\<close>

record ImGui =
  DisplayFramebufferScale :: "real \<times> real"
  Begin :: "int \<Rightarrow> string \<Rightarrow> real option"

type_synonym ImVec4 = "real \<times> real \<times> real \<times> real"

record DrawCall =
  dc_index :: int
  dc_position :: "real \<times> real"
  dc_alpha :: real
  dc_TextColored :: "(ImVec4 \<times> string) option"

definition ARGBToImVec4 :: "u32 \<Rightarrow> ImVec4" where
  "ARGBToImVec4 argb =
     (real (unat (drop_bit 16 argb AND 0xFF)) / 255,
      real (unat (drop_bit 8 argb AND 0xFF)) / 255,
      real (unat (drop_bit 0 argb AND 0xFF)) / 255,
      real (unat (drop_bit 24 argb AND 0xFF)) / 255)"

text \<open>
  \<open>DrawMessage(int index, Message& msg, const ImVec2& position, int time_left)\<close>
  returns the window height, the message with \<open>ever_drawn\<close> set, and the draw call.
\<close>

definition DrawMessage ::
  "ImGui \<Rightarrow> int \<Rightarrow> Message \<Rightarrow> real \<times> real \<Rightarrow> int \<Rightarrow> real \<times> Message \<times> DrawCall" where
  "DrawMessage imgui index msg position time_left =
     (let fade_time = max (min MESSAGE_FADE_TIME (real (unat (duration msg)))) 1;
          alpha = std_clamp (real_of_int time_left / fade_time) 0 1;
          call = \<lparr>dc_index = index, dc_position = position,
                  dc_alpha = (if ever_drawn msg then alpha else 1),
                  dc_TextColored =
                    (case Begin imgui index (msg_text msg) of
                       Some y \<Rightarrow> Some (ARGBToImVec4 (color msg), msg_text msg)
                     | None \<Rightarrow> None)\<rparr>;
          window_height =
            (case Begin imgui index (msg_text msg) of
               Some y \<Rightarrow> y + WINDOW_PADDING * snd (DisplayFramebufferScale imgui)
             | None \<Rightarrow> 0)
      in (window_height, msg\<lparr>ever_drawn := True\<rparr>, call))"

subsection \<open>The producer interface\<close>

definition AddTypedMessage ::
  "u64 \<Rightarrow> MessageType \<Rightarrow> string \<Rightarrow> u32 \<Rightarrow> u32 \<Rightarrow> OSD \<Rightarrow> OSD" where
  "AddTypedMessage now type message ms argb s =
     s\<lparr>s_messages := emplace type (Message_init now message ms argb) (erase type (s_messages s))\<rparr>"

definition AddMessage ::
  "MessageType \<Rightarrow> u64 \<Rightarrow> string \<Rightarrow> u32 \<Rightarrow> u32 \<Rightarrow> OSD \<Rightarrow> OSD" where
  "AddMessage Typeless now message ms argb s =
     s\<lparr>s_messages := emplace Typeless (Message_init now message ms argb) (s_messages s)\<rparr>"

definition ClearMessages :: "OSD \<Rightarrow> OSD" where
  "ClearMessages s = s\<lparr>s_messages := []\<rparr>"

subsection \<open>The draw pass\<close>

text \<open>
  The loop of \<open>DrawMessages\<close> over the container. Every iteration reads the clock
  once, in \<open>TimeRemaining\<close>: \<open>clock i\<close> is the reading of iteration \<open>i\<close>. The other
  loop variables are \<open>index\<close> and \<open>current_y\<close>. The result is the container after
  the loop and the draw calls in order.
\<close>

fun DrawMessages_loop ::
  "bool \<Rightarrow> ImGui \<Rightarrow> (nat \<Rightarrow> u64) \<Rightarrow> real \<Rightarrow> nat \<Rightarrow> int \<Rightarrow> real \<Rightarrow> multimap
     \<Rightarrow> multimap \<times> DrawCall list" where
  "DrawMessages_loop draw_messages imgui clock current_x i index current_y [] = ([], [])"
| "DrawMessages_loop draw_messages imgui clock current_x i index current_y ((type, msg) # rest) =
     (let time_left = TimeRemaining (clock i) msg in
      if time_left \<le> 0 \<and> (ever_drawn msg \<or> MESSAGE_DROP_TIME \<le> real_of_int (- time_left))
      then DrawMessages_loop draw_messages imgui clock current_x (Suc i) index current_y rest
      else if draw_messages
      then
        (let (window_height, msg', call) =
               DrawMessage imgui index msg (current_x, current_y) (int_of_s64 time_left);
             (rest', calls) =
               DrawMessages_loop draw_messages imgui clock current_x (Suc i) (index + 1)
                 (current_y + window_height) rest
         in ((type, msg') # rest', call # calls))
      else
        (let (rest', calls) =
               DrawMessages_loop draw_messages imgui clock current_x (Suc i) index current_y rest
         in ((type, msg) # rest', calls)))"

text \<open>
  \<open>DrawMessages\<close>; \<open>MAIN_OSD_MESSAGES\<close> is the value of the configuration flag
  \<open>Config::MAIN_OSD_MESSAGES\<close> at the call.
\<close>

definition DrawMessages ::
  "bool \<Rightarrow> ImGui \<Rightarrow> (nat \<Rightarrow> u64) \<Rightarrow> OSD \<Rightarrow> OSD \<times> DrawCall list" where
  "DrawMessages MAIN_OSD_MESSAGES imgui clock s =
     (let draw_messages = MAIN_OSD_MESSAGES;
          current_x = LEFT_MARGIN * fst (DisplayFramebufferScale imgui)
                        + real_of_int (s_obscured_pixels_left s);
          current_y = TOP_MARGIN * snd (DisplayFramebufferScale imgui)
                        + real_of_int (s_obscured_pixels_top s);
          (messages, calls) =
            DrawMessages_loop draw_messages imgui clock current_x 0 0 current_y (s_messages s)
      in (s\<lparr>s_messages := messages\<rparr>, calls))"

text \<open>
  The container and the draw calls that one call of \<open>DrawMessages\<close> leaves when the
  container holds \<open>xs\<close>.
\<close>

definition messages_after :: "bool \<Rightarrow> ImGui \<Rightarrow> (nat \<Rightarrow> u64) \<Rightarrow> OSD \<Rightarrow> multimap \<Rightarrow> multimap" where
  "messages_after draw imgui clock s xs =
     s_messages (fst (DrawMessages draw imgui clock (s\<lparr>s_messages := xs\<rparr>)))"

definition calls_of :: "bool \<Rightarrow> ImGui \<Rightarrow> (nat \<Rightarrow> u64) \<Rightarrow> OSD \<Rightarrow> multimap \<Rightarrow> DrawCall list" where
  "calls_of draw imgui clock s xs = snd (DrawMessages draw imgui clock (s\<lparr>s_messages := xs\<rparr>))"

subsection \<open>Sequences of calls\<close>

text \<open>
  The four functions take \<open>s_messages_mutex\<close> for their whole body, so calls from
  the producer thread and from the render thread take effect one after the other. A
  history of the overlay is a list of calls, run from left to right; the draw calls
  of the history are collected in order.
\<close>

datatype OSD_call =
  Call_AddTypedMessage u64 MessageType string u32 u32
| Call_AddMessage u64 string u32 u32
| Call_DrawMessages bool ImGui "nat \<Rightarrow> u64"
| Call_ClearMessages

fun OSD_step :: "MessageType \<Rightarrow> OSD \<times> DrawCall list \<Rightarrow> OSD_call \<Rightarrow> OSD \<times> DrawCall list" where
  "OSD_step Typeless (s, drawn) (Call_AddTypedMessage now type message ms argb) =
     (AddTypedMessage now type message ms argb s, drawn)"
| "OSD_step Typeless (s, drawn) (Call_AddMessage now message ms argb) =
     (AddMessage Typeless now message ms argb s, drawn)"
| "OSD_step Typeless (s, drawn) (Call_DrawMessages MAIN_OSD_MESSAGES imgui clock) =
     (let (s', calls) = DrawMessages MAIN_OSD_MESSAGES imgui clock s in (s', drawn @ calls))"
| "OSD_step Typeless (s, drawn) Call_ClearMessages = (ClearMessages s, drawn)"

definition OSD_run :: "MessageType \<Rightarrow> OSD_call list \<Rightarrow> OSD \<Rightarrow> OSD \<times> DrawCall list" where
  "OSD_run Typeless calls s = foldl (OSD_step Typeless) (s, []) calls"


section \<open>Present.cpp\<close>

subsection \<open>Rectangles, configuration and state\<close>

text \<open>
  Modelled from the spec: \<open>MathUtil::Rectangle<int>\<close> (Common/MathUtil.h) is not among
  the sources. The spec gives its fields, \<open>{left, top, right, bottom}\<close>, integer
  bounds in pixel space, and calls \<open>GetWidth\<close> and \<open>GetHeight\<close> the extents of the
  rectangle: the distance between the two bounds of an axis. The field \<open>top\<close> is
  \<open>top'\<close> here.
\<close>

record Rectangle =
  left :: int
  top' :: int
  right :: int
  bottom :: int

definition GetWidth :: "Rectangle \<Rightarrow> int" where
  "GetWidth r = \<bar>right r - left r\<bar>"

definition GetHeight :: "Rectangle \<Rightarrow> int" where
  "GetHeight r = \<bar>bottom r - top' r\<bar>"

text \<open>
  Modelled from the spec: the configuration (VideoCommon/VideoConfig.h) is not among
  the sources. The spec lists what this file reads of it: the aspect mode, the crop
  flag, the stereo mode and the widescreen hack flag. \<open>Analog\<close> stands for every
  aspect mode the file does not name, \<open>Off\<close> for no stereo.
\<close>

datatype AspectMode = Auto | AnalogWide | Analog | Stretch

datatype StereoMode = Off | SBS | TAB | QuadBuffer

record VideoConfig =
  aspect_mode :: AspectMode
  bCrop :: bool
  stereo_mode :: StereoMode
  bWidescreenHack :: bool

text \<open>
  What the file asks of the emulated hardware and the renderer, both external:
  \<open>VideoInterface::GetAspectRatio()\<close> and \<open>g_renderer->IsGameWidescreen()\<close>.
\<close>

record Emulation =
  GetAspectRatio :: float
  IsGameWidescreen :: bool

text \<open>The members of \<open>Presenter\<close> that the geometry functions read and write.\<close>

record Presenter =
  m_backbuffer_width :: int
  m_backbuffer_height :: int
  m_target_rectangle :: Rectangle

text \<open>
  What \<open>UpdateDrawRectangle\<close> writes outside the presenter: the two hack factors of
  \<open>g_Config\<close> and the adjustment passed to the controller interface.
\<close>

record LayoutOutputs =
  fAspectRatioHackW :: float
  fAspectRatioHackH :: float
  AspectRatioAdjustment :: float

subsection \<open>Geometry\<close>

text \<open>
  The arithmetic of the functions below is that of the source, operation by
  operation, each in the precision of its operands: \<open>float\<close> throughout, \<open>double\<close>
  where the source divides by the literal \<open>2.0\<close>.
\<close>

definition AspectToWidescreen :: "float \<Rightarrow> float" where
  "AspectToWidescreen aspect =
     fmul binary32 aspect
       (fdiv binary32 (fdiv binary32 (Finite 16) (Finite 9)) (fdiv binary32 (Finite 4) (Finite 3)))"

text \<open>
  \<open>ConvertStereoRectangle\<close>, in its two steps: the target resized (\<open>draw_rc\<close>), then
  the two copies offset to the sides of the backbuffer.
\<close>

definition stereo_draw_rc :: "VideoConfig \<Rightarrow> Rectangle \<Rightarrow> Rectangle" where
  "stereo_draw_rc cfg rc =
     (if stereo_mode cfg = TAB
      then (let height = bottom rc - top' rc
            in rc\<lparr>top' := top' rc + height sdiv 4, bottom := bottom rc - height sdiv 4\<rparr>)
      else (let width = right rc - left rc
            in rc\<lparr>left := left rc + width sdiv 4, right := right rc - width sdiv 4\<rparr>))"

definition ConvertStereoRectangle ::
  "VideoConfig \<Rightarrow> Presenter \<Rightarrow> Rectangle \<Rightarrow> Rectangle \<times> Rectangle" where
  "ConvertStereoRectangle cfg p rc =
     (let draw_rc = stereo_draw_rc cfg rc
      in if stereo_mode cfg = TAB
         then (draw_rc\<lparr>top' := top' draw_rc - m_backbuffer_height p sdiv 4,
                       bottom := bottom draw_rc - m_backbuffer_height p sdiv 4\<rparr>,
               draw_rc\<lparr>top' := top' draw_rc + m_backbuffer_height p sdiv 4,
                       bottom := bottom draw_rc + m_backbuffer_height p sdiv 4\<rparr>)
         else (draw_rc\<lparr>left := left draw_rc - m_backbuffer_width p sdiv 4,
                       right := right draw_rc - m_backbuffer_width p sdiv 4\<rparr>,
               draw_rc\<lparr>left := left draw_rc + m_backbuffer_width p sdiv 4,
                       right := right draw_rc + m_backbuffer_width p sdiv 4\<rparr>))"

definition CalculateDrawAspectRatio :: "VideoConfig \<Rightarrow> Emulation \<Rightarrow> Presenter \<Rightarrow> float" where
  "CalculateDrawAspectRatio cfg em p =
     (if aspect_mode cfg = Stretch
      then fdiv binary32 (float_of_int (m_backbuffer_width p)) (float_of_int (m_backbuffer_height p))
      else (let aspect_ratio = GetAspectRatio em
            in if aspect_mode cfg = AnalogWide \<or> (aspect_mode cfg = Auto \<and> IsGameWidescreen em)
               then AspectToWidescreen aspect_ratio
               else aspect_ratio))"

text \<open>
  \<open>AdjustRectanglesToFitBounds\<close>: the four \<open>if\<close> statements in their order, each
  working on the rectangles the one before left. The source updates both rectangles
  in place; the model returns them.
\<close>

definition AdjustRectanglesToFitBounds ::
  "Rectangle \<Rightarrow> Rectangle \<Rightarrow> int \<Rightarrow> int \<Rightarrow> (Rectangle \<times> Rectangle) option" where
  "AdjustRectanglesToFitBounds target_rect source_rect fb_width fb_height =
     (let orig_target_width = GetWidth target_rect;
          orig_target_height = GetHeight target_rect;
          orig_source_width = GetWidth source_rect;
          orig_source_height = GetHeight source_rect
      in do {
        (t1, s1) \<leftarrow>
          (if left target_rect < 0
           then do {
             let offset = - left target_rect;
             q \<leftarrow> int_div (offset * orig_source_width) orig_target_width;
             Some (target_rect\<lparr>left := 0\<rparr>, source_rect\<lparr>left := left source_rect + q\<rparr>)
           }
           else Some (target_rect, source_rect));
        (t2, s2) \<leftarrow>
          (if right t1 > fb_width
           then do {
             let offset = right t1 - fb_width;
             q \<leftarrow> int_div (offset * orig_source_width) orig_target_width;
             Some (t1\<lparr>right := right t1 - offset\<rparr>, s1\<lparr>right := right s1 - q\<rparr>)
           }
           else Some (t1, s1));
        (t3, s3) \<leftarrow>
          (if top' t2 < 0
           then do {
             let offset = - top' t2;
             q \<leftarrow> int_div (offset * orig_source_height) orig_target_height;
             Some (t2\<lparr>top' := 0\<rparr>, s2\<lparr>top' := top' s2 + q\<rparr>)
           }
           else Some (t2, s2));
        (if bottom t3 > fb_height
         then do {
           let offset = bottom t3 - fb_height;
           q \<leftarrow> int_div (offset * orig_source_height) orig_target_height;
           Some (t3\<lparr>bottom := bottom t3 - offset\<rparr>, s3\<lparr>bottom := bottom s3 - q\<rparr>)
         }
         else Some (t3, s3))
      })"

definition ApplyStandardAspectCrop ::
  "VideoConfig \<Rightarrow> Emulation \<Rightarrow> float \<Rightarrow> float \<Rightarrow> float \<times> float" where
  "ApplyStandardAspectCrop cfg em width height =
     (if \<not> bCrop cfg \<or> aspect_mode cfg = Stretch then (width, height)
      else
        (let current_aspect = fdiv binary32 width height;
             expected_aspect =
               (if aspect_mode cfg = AnalogWide \<or> (aspect_mode cfg = Auto \<and> IsGameWidescreen em)
                then fdiv binary32 (Finite 16) (Finite 9)
                else fdiv binary32 (Finite 4) (Finite 3))
         in if fgt current_aspect expected_aspect
            then (fmul binary32 height expected_aspect, height)
            else (width, fdiv binary32 width expected_aspect)))"

text \<open>
  \<open>UpdateDrawRectangle\<close>, in three parts: the hack factors; the draw size scaled to
  fit the rendering window (\<open>draw_width\<close> and \<open>draw_height\<close> before the line
  ``ensure divisibility by 4''); the whole function. It has no result where a
  conversion to \<open>int\<close> is undefined.
\<close>

definition AspectRatioHack :: "VideoConfig \<Rightarrow> Emulation \<Rightarrow> float \<Rightarrow> float \<times> float" where
  "AspectRatioHack cfg em draw_aspect_ratio =
     (if bWidescreenHack cfg
      then
        (let source_aspect = GetAspectRatio em;
             source_aspect =
               (if IsGameWidescreen em then AspectToWidescreen source_aspect else source_aspect);
             adjust = fdiv binary32 source_aspect draw_aspect_ratio
         in if fgt adjust (Finite 1) then (Finite 1, fdiv binary32 (Finite 1) adjust)
            else (adjust, Finite 1))
      else (Finite 1, Finite 1))"

definition scaled_draw_size :: "VideoConfig \<Rightarrow> Emulation \<Rightarrow> Presenter \<Rightarrow> float \<times> float" where
  "scaled_draw_size cfg em p =
     (let draw_aspect_ratio = CalculateDrawAspectRatio cfg em p;
          win_width = float_of_int (m_backbuffer_width p);
          win_height = float_of_int (m_backbuffer_height p);
          draw_width = draw_aspect_ratio;
          draw_height = Finite 1;
          (crop_width, crop_height) = ApplyStandardAspectCrop cfg em draw_width draw_height
      in if fge (fdiv binary32 win_width win_height) (fdiv binary32 crop_width crop_height)
         then (fmul binary32 draw_width (fdiv binary32 win_height crop_height),
               fmul binary32 draw_height (fdiv binary32 win_height crop_height))
         else (fmul binary32 draw_width (fdiv binary32 win_width crop_width),
               fmul binary32 draw_height (fdiv binary32 win_width crop_width)))"

definition UpdateDrawRectangle ::
  "VideoConfig \<Rightarrow> Emulation \<Rightarrow> Presenter \<Rightarrow> (Presenter \<times> LayoutOutputs) option" where
  "UpdateDrawRectangle cfg em p =
     (let draw_aspect_ratio = CalculateDrawAspectRatio cfg em p;
          (hack_w, hack_h) = AspectRatioHack cfg em draw_aspect_ratio;
          win_width = float_of_int (m_backbuffer_width p);
          win_height = float_of_int (m_backbuffer_height p);
          adjustment = fdiv binary32 draw_aspect_ratio (fdiv binary32 win_width win_height);
          (draw_width, draw_height) = scaled_draw_size cfg em p
      in do {
        ceil_width \<leftarrow> int_of_float (std_ceil draw_width);
        let draw_width = fsub binary32 (std_ceil draw_width) (float_of_int (ceil_width smod 4));
        ceil_height \<leftarrow> int_of_float (std_ceil draw_height);
        let draw_height = fsub binary32 (std_ceil draw_height) (float_of_int (ceil_height smod 4));
        rc_left \<leftarrow> int_of_float (std_round
          (fsub binary64 (fdiv binary64 (double_of_float win_width) (Finite 2))
                         (fdiv binary64 (double_of_float draw_width) (Finite 2))));
        rc_top \<leftarrow> int_of_float (std_round
          (fsub binary64 (fdiv binary64 (double_of_float win_height) (Finite 2))
                         (fdiv binary64 (double_of_float draw_height) (Finite 2))));
        width \<leftarrow> int_of_float draw_width;
        height \<leftarrow> int_of_float draw_height;
        Some (p\<lparr>m_target_rectangle :=
                  \<lparr>left = rc_left, top' = rc_top,
                   right = rc_left + width, bottom = rc_top + height\<rparr>\<rparr>,
              \<lparr>fAspectRatioHackW = hack_w, fAspectRatioHackH = hack_h,
               AspectRatioAdjustment = adjustment\<rparr>)
      })"

definition ScaleToDisplayAspectRatio ::
  "VideoConfig \<Rightarrow> Emulation \<Rightarrow> Presenter \<Rightarrow> int \<Rightarrow> int \<Rightarrow> float \<times> float" where
  "ScaleToDisplayAspectRatio cfg em p width height =
     (let scaled_width = float_of_int width;
          scaled_height = float_of_int height;
          draw_aspect = CalculateDrawAspectRatio cfg em p
      in if fge (fdiv binary32 scaled_width scaled_height) draw_aspect
         then (scaled_width, fdiv binary32 scaled_width draw_aspect)
         else (fmul binary32 scaled_height draw_aspect, scaled_height))"

text \<open>
  \<open>CalculateOutputDimensions\<close> is \<open>const\<close>: it returns the two dimensions and no
  presenter. It has no result where a conversion to \<open>int\<close> is undefined.
\<close>

definition CalculateOutputDimensions ::
  "VideoConfig \<Rightarrow> Emulation \<Rightarrow> Presenter \<Rightarrow> int \<Rightarrow> int \<Rightarrow> (int \<times> int) option" where
  "CalculateOutputDimensions cfg em p width height =
     (let width = max width 1;
          height = max height 1;
          (scaled_width, scaled_height) = ScaleToDisplayAspectRatio cfg em p width height;
          (scaled_width, scaled_height) = ApplyStandardAspectCrop cfg em scaled_width scaled_height
      in do {
        width \<leftarrow> int_of_float (std_ceil scaled_width);
        height \<leftarrow> int_of_float (std_ceil scaled_height);
        let width = width - width smod 4;
        let height = height - height smod 4;
        Some (width, height)
      })"

section \<open>Example data\<close>

text \<open>
  A UI in which every window is visible and 20 pixels high, a UI in which
  \<open>ImGui::Begin\<close> returns false for every window, a message created at clock reading
  0, and the globals holding a given container.
\<close>

definition example_imgui :: ImGui where
  "example_imgui = \<lparr>DisplayFramebufferScale = (1, 1), Begin = (\<lambda>index text'. Some 20)\<rparr>"

definition hidden_imgui :: ImGui where
  "hidden_imgui = \<lparr>DisplayFramebufferScale = (1, 1), Begin = (\<lambda>index text'. None)\<rparr>"

definition example_message :: "u32 \<Rightarrow> bool \<Rightarrow> Message" where
  "example_message ms drawn = (Message_init 0 ''msg'' ms 0xFFFFFF00)\<lparr>ever_drawn := drawn\<rparr>"

definition example_osd :: "multimap \<Rightarrow> OSD" where
  "example_osd xs = OSD_init\<lparr>s_messages := xs\<rparr>"

text \<open>
  A configuration without stereo or hack in a given aspect mode, with or without crop;
  emulated hardware of a given aspect ratio showing a game that is or is not
  widescreen; the aspect ratio \<open>4.0f / 3.0f\<close>; and a presenter with a backbuffer of a
  given size.
\<close>

definition example_mode :: "AspectMode \<Rightarrow> bool \<Rightarrow> VideoConfig" where
  "example_mode mode crop =
     \<lparr>aspect_mode = mode, bCrop = crop, stereo_mode = Off, bWidescreenHack = False\<rparr>"

definition example_game :: "float \<Rightarrow> bool \<Rightarrow> Emulation" where
  "example_game aspect widescreen = \<lparr>GetAspectRatio = aspect, IsGameWidescreen = widescreen\<rparr>"

definition four_thirds :: float where
  "four_thirds = fdiv binary32 (Finite 4) (Finite 3)"

definition example_presenter :: "int \<Rightarrow> int \<Rightarrow> Presenter" where
  "example_presenter width height =
     \<lparr>m_backbuffer_width = width, m_backbuffer_height = height,
      m_target_rectangle = \<lparr>left = 0, top' = 0, right = 0, bottom = 0\<rparr>\<rparr>"

section \<open>Properties of the message overlay\<close>

subsection \<open>The remaining time without wrap-around\<close>

lemma TimeRemaining_exact:
  assumes "unat (ElapsedMs now (timer m)) < 2 ^ 63"
  shows "TimeRemaining now m = int (unat (duration m)) - int (unat (ElapsedMs now (timer m)))"
proof -
  let ?e = "ElapsedMs now (timer m)"
  let ?k = "uint (duration m) - uint ?e"
  have w: "(ucast (duration m) :: u64) - ?e = word_of_int ?k"
    by simp
  have d32: "uint (duration m) < 2 ^ 32"
    using uint_bounded [of "duration m"] by simp
  have e0: "0 \<le> uint ?e"
    by simp
  have "int (unat ?e) < 2 ^ 63"
    using assms by (simp only: of_nat_less_numeral_power_cancel_iff)
  then have e63: "uint ?e < 2 ^ 63"
    by simp
  have p: "(2::int) ^ 32 < 2 ^ 63"
    by simp
  have hi: "?k < 2 ^ 63"
    using d32 e0 p by linarith
  have lo: "- (2 ^ 63) \<le> ?k"
    using e63 uint_ge_0 [of "duration m"] by linarith
  have "sint (word_of_int ?k :: u64) = signed_take_bit (LENGTH(64) - 1) ?k"
    by (rule sint_sbintrunc')
  also have "\<dots> = signed_take_bit 63 ?k"
    by simp
  also have "\<dots> = ?k"
    using lo hi by (rule signed_take_bit_int_eq_self)
  finally show ?thesis
    unfolding TimeRemaining_def s64_of_u64_def w by simp
qed

subsection \<open>The loop treats every entry on its own\<close>

lemma DrawMessages_loop_messages_independent:
  "fst (DrawMessages_loop d io clock x i index y xs) =
   fst (DrawMessages_loop d io clock x' i index' y' xs)"
proof (induction xs arbitrary: d i index y index' y')
  case Nil
  show ?case by simp
next
  case (Cons e xs)
  obtain ty m where e: "e = (ty, m)" by (cases e)
  let ?h = "\<lambda>k. case Begin io k (msg_text m) of
                   Some y \<Rightarrow> y + WINDOW_PADDING * snd (DisplayFramebufferScale io)
                 | None \<Rightarrow> 0"
  show ?case
    unfolding e
    using Cons.IH [of d "Suc i" index y index' y']
          Cons.IH [of d "Suc i" "index + 1" "y + ?h index" "index' + 1" "y' + ?h index'"]
    by (auto simp: Let_def split_beta DrawMessage_def)
qed

lemma DrawMessages_loop_messages_append:
  "fst (DrawMessages_loop d io clock x i index y (xs @ ys)) =
   fst (DrawMessages_loop d io clock x i index y xs) @
   fst (DrawMessages_loop d io clock x (i + length xs) index y ys)"
proof (induction xs arbitrary: d i index y)
  case Nil
  show ?case by simp
next
  case (Cons e xs)
  obtain ty m where e: "e = (ty, m)" by (cases e)
  let ?h = "fst (DrawMessage io index m (x, y) (int_of_s64 (TimeRemaining (clock i) m)))"
  have ind: "fst (DrawMessages_loop d io clock x (Suc (i + length xs)) (index + 1) (y + ?h) ys) =
             fst (DrawMessages_loop d io clock x (Suc (i + length xs)) index y ys)"
    by (rule DrawMessages_loop_messages_independent)
  show ?case
    unfolding e
    using Cons.IH [of d "Suc i" index y] Cons.IH [of d "Suc i" "index + 1" "y + ?h"] ind
    by (auto simp: Let_def split_beta)
qed

lemma DrawMessages_loop_clock_shift:
  "DrawMessages_loop d io clock x (i + k) index y xs =
   DrawMessages_loop d io (\<lambda>j. clock (j + k)) x i index y xs"
proof (induction xs arbitrary: d i index y)
  case Nil
  show ?case by simp
next
  case (Cons e xs)
  obtain ty m where e: "e = (ty, m)" by (cases e)
  have IH: "\<And>d index y. DrawMessages_loop d io clock x (Suc (i + k)) index y xs =
     DrawMessages_loop d io (\<lambda>j. clock (j + k)) x (Suc i) index y xs"
    using Cons.IH [of _ "Suc i"] by simp
  show ?case
    unfolding e by (auto simp: Let_def split_beta IH)
qed

subsection \<open>One call of the draw pass, entry by entry\<close>

lemma drop_time_int:
  "MESSAGE_DROP_TIME \<le> real_of_int (- t) \<longleftrightarrow> 5000 \<le> - t"
proof -
  have "real_of_int 5000 \<le> real_of_int (- t) \<longleftrightarrow> 5000 \<le> - t"
    by (rule of_int_le_iff)
  then show ?thesis
    by (simp add: MESSAGE_DROP_TIME_def)
qed

lemma messages_after_append:
  "messages_after d io clock s (xs @ ys) =
   messages_after d io clock s xs @ messages_after d io (\<lambda>j. clock (j + length xs)) s ys"
  using DrawMessages_loop_messages_append [of d io clock _ 0 0 _ xs ys]
        DrawMessages_loop_clock_shift [of d io clock _ 0 "length xs" 0 _ ys]
  by (simp add: messages_after_def DrawMessages_def Let_def split_beta)

lemma messages_after_single:
  "messages_after d io clock s [(ty, m)] =
   (if TimeRemaining (clock 0) m \<le> 0 \<and> (ever_drawn m \<or> 5000 \<le> - TimeRemaining (clock 0) m)
    then [] else [(ty, if d then m\<lparr>ever_drawn := True\<rparr> else m)])"
  using drop_time_int [of "TimeRemaining (clock 0) m"]
  by (auto simp: messages_after_def DrawMessages_def Let_def split_beta DrawMessage_def)

lemma messages_after_entry:
  "messages_after d io clock s (pre @ (ty, m) # post) =
   messages_after d io clock s pre @
   (if TimeRemaining (clock (length pre)) m \<le> 0 \<and>
       (ever_drawn m \<or> 5000 \<le> - TimeRemaining (clock (length pre)) m)
    then [] else [(ty, if d then m\<lparr>ever_drawn := True\<rparr> else m)]) @
   messages_after d io (\<lambda>j. clock (j + Suc (length pre))) s post"
proof -
  have "messages_after d io clock s (pre @ [(ty, m)] @ post) =
        messages_after d io clock s pre @
        messages_after d io (\<lambda>j. clock (j + length pre)) s [(ty, m)] @
        messages_after d io (\<lambda>j. clock (j + 1 + length pre)) s post"
    by (simp only: messages_after_append [of d io _ s] length_Cons list.size)
      (simp add: add.assoc)
  then show ?thesis
    by (simp add: messages_after_single)
qed

lemma messages_after_own: "messages_after d io clock s (s_messages s) = s_messages (fst (DrawMessages d io clock s))"
  by (simp add: messages_after_def)

lemmas example_defs =
  example_imgui_def example_message_def example_osd_def OSD_init_def Message_init_def Start_def

lemmas eval_defs =
  messages_after_def calls_of_def DrawMessages_def DrawMessage_def TimeRemaining_def ElapsedMs_def
  s64_of_u64_def int_of_s64_def MESSAGE_DROP_TIME_def MESSAGE_FADE_TIME_def std_clamp_def
  LEFT_MARGIN_def TOP_MARGIN_def WINDOW_PADDING_def ARGBToImVec4_def Let_def

subsection \<open>The removal rule\<close>

text \<open>
  Claim C1. For every message in the live set, a call to \<open>DrawMessages\<close> removes it
  exactly when its remaining time, the duration minus the elapsed time, is at most 0
  and either it has been drawn at least once or the time past expiry (the negated
  remaining time) is at least 5000 ms; a message that does not meet this condition
  survives the call. The entries before it and behind it are treated on their own.
  The elapsed time is below \<open>2 ^ 63\<close> ms, so that the difference, which the code
  takes in \<open>u64\<close> and converts to \<open>s64\<close>, does not wrap around.
\<close>

theorem DrawMessages_removes_exactly_expired:
  assumes "s_messages s = pre @ (type, msg) # post"
    and "unat (ElapsedMs (clock (length pre)) (timer msg)) < 2 ^ 63"
  shows "s_messages (fst (DrawMessages draw imgui clock s)) =
     messages_after draw imgui clock s pre @
     (let time_left =
            int (unat (duration msg)) - int (unat (ElapsedMs (clock (length pre)) (timer msg)))
      in if time_left \<le> 0 \<and> (ever_drawn msg \<or> 5000 \<le> - time_left)
         then [] else [(type, if draw then msg\<lparr>ever_drawn := True\<rparr> else msg)]) @
     messages_after draw imgui (\<lambda>j. clock (j + Suc (length pre))) s post"
  using messages_after_entry [of draw imgui clock s pre type msg post] assms(1)
    TimeRemaining_exact [OF assms(2)]
  by (simp add: messages_after_own [symmetric] Let_def)

theorem DrawMessages_removes_exactly_expired_witness:
  "s_messages (example_osd [(0, example_message 1000 True), (1, example_message 0 False), (1, example_message 0 False)]) =
     [(0, example_message 1000 True)] @ (1, example_message 0 False) # [(1, example_message 0 False)] \<and>
   unat (ElapsedMs 4999 (timer (example_message 0 False))) < 2 ^ 63 \<and>
   s_messages (fst (DrawMessages True example_imgui (\<lambda>i. if i = 2 then 5000 else 4999)
      (example_osd [(0, example_message 1000 True), (1, example_message 0 False), (1, example_message 0 False)]))) =
     [(1, example_message 0 True)]"
  using DrawMessages_removes_exactly_expired
    [where s = "example_osd [(0, example_message 1000 True), (1, example_message 0 False), (1, example_message 0 False)]"
       and pre = "[(0, example_message 1000 True)]" and type = 1 and msg = "example_message 0 False"
       and post = "[(1, example_message 0 False)]" and draw = True and imgui = example_imgui
       and clock = "\<lambda>i. if i = 2 then 5000 else 4999"]
  by (simp add: example_defs eval_defs)

subsection \<open>Messages that have not been drawn\<close>

lemma undrawn_removal_condition:
  assumes "unat (ElapsedMs now (timer m)) < 2 ^ 63"
  shows "TimeRemaining now m \<le> 0 \<and> 5000 \<le> - TimeRemaining now m \<longleftrightarrow>
         unat (duration m) + 5000 \<le> unat (ElapsedMs now (timer m))"
  unfolding TimeRemaining_exact [OF assms] by linarith

lemma DrawMessages_loop_calls_append:
  "\<exists>y'. snd (DrawMessages_loop d io clock x i index y (xs @ ys)) =
     snd (DrawMessages_loop d io clock x i index y xs) @
     snd (DrawMessages_loop d io clock x (i + length xs)
            (index + int (length (snd (DrawMessages_loop d io clock x i index y xs)))) y' ys)"
proof (induction xs arbitrary: d i index y)
  case Nil
  show ?case by (rule exI [of _ y]) simp
next
  case (Cons e xs)
  obtain ty m where e: "e = (ty, m)" by (cases e)
  let ?h = "fst (DrawMessage io index m (x, y) (int_of_s64 (TimeRemaining (clock i) m)))"
  from Cons.IH [of d "Suc i" index y] obtain y1 where
    1: "snd (DrawMessages_loop d io clock x (Suc i) index y (xs @ ys)) =
        snd (DrawMessages_loop d io clock x (Suc i) index y xs) @
        snd (DrawMessages_loop d io clock x (Suc i + length xs)
               (index + int (length (snd (DrawMessages_loop d io clock x (Suc i) index y xs)))) y1 ys)"
    by blast
  from Cons.IH [of d "Suc i" "index + 1" "y + ?h"] obtain y2 where
    2: "snd (DrawMessages_loop d io clock x (Suc i) (index + 1) (y + ?h) (xs @ ys)) =
        snd (DrawMessages_loop d io clock x (Suc i) (index + 1) (y + ?h) xs) @
        snd (DrawMessages_loop d io clock x (Suc i + length xs)
               (index + 1 + int (length (snd (DrawMessages_loop d io clock x (Suc i) (index + 1) (y + ?h) xs)))) y2 ys)"
    by blast
  let ?cond = "TimeRemaining (clock i) m \<le> 0 \<and>
      (ever_drawn m \<or> MESSAGE_DROP_TIME \<le> real_of_int (- TimeRemaining (clock i) m))"
  show ?case
  proof (cases ?cond)
    case True
    then show ?thesis
      unfolding e using 1 by (auto simp: Let_def intro!: exI [of _ y1])
  next
    case False
    show ?thesis
    proof (cases d)
      case True
      with False show ?thesis
        unfolding e using 2
        by (auto simp: Let_def split_beta add.assoc add.commute [of 1] intro!: exI [of _ y2])
    next
      case d: False
      with False show ?thesis
        unfolding e using 1 by (auto simp: Let_def split_beta intro!: exI [of _ y1])
    qed
  qed
qed


lemma calls_of_entry_drawn:
  assumes "\<not> (TimeRemaining (clock (length pre)) m \<le> 0 \<and>
              (ever_drawn m \<or> 5000 \<le> - TimeRemaining (clock (length pre)) m))"
  shows "length (calls_of True io clock s pre) < length (calls_of True io clock s (pre @ (ty, m) # post)) \<and>
         dc_index (calls_of True io clock s (pre @ (ty, m) # post) ! length (calls_of True io clock s pre)) =
           int (length (calls_of True io clock s pre)) \<and>
         dc_TextColored (calls_of True io clock s (pre @ (ty, m) # post) ! length (calls_of True io clock s pre)) =
           (case Begin io (int (length (calls_of True io clock s pre))) (msg_text m) of
              Some y \<Rightarrow> Some (ARGBToImVec4 (color m), msg_text m)
            | None \<Rightarrow> None) \<and>
         dc_alpha (calls_of True io clock s (pre @ (ty, m) # post) ! length (calls_of True io clock s pre)) =
           (if ever_drawn m
            then std_clamp (real_of_int (int_of_s64 (TimeRemaining (clock (length pre)) m))
                             / max (min MESSAGE_FADE_TIME (real (unat (duration m)))) 1) 0 1
            else 1)"
proof -
  let ?x = "LEFT_MARGIN * fst (DisplayFramebufferScale io) + real_of_int (s_obscured_pixels_left s)"
  let ?y = "TOP_MARGIN * snd (DisplayFramebufferScale io) + real_of_int (s_obscured_pixels_top s)"
  let ?pre = "snd (DrawMessages_loop True io clock ?x 0 0 ?y pre)"
  obtain y' where
    a: "snd (DrawMessages_loop True io clock ?x 0 0 ?y (pre @ (ty, m) # post)) =
        ?pre @ snd (DrawMessages_loop True io clock ?x (0 + length pre) (0 + int (length ?pre)) y'
                      ((ty, m) # post))"
    using DrawMessages_loop_calls_append [of True io clock ?x 0 0 ?y pre "(ty, m) # post"] by blast
  have c: "\<not> (TimeRemaining (clock (length pre)) m \<le> 0 \<and>
              (ever_drawn m \<or> MESSAGE_DROP_TIME \<le> real_of_int (- TimeRemaining (clock (length pre)) m)))"
    using assms unfolding drop_time_int .
  have "\<exists>rest. snd (DrawMessages_loop True io clock ?x (0 + length pre) (0 + int (length ?pre)) y'
               ((ty, m) # post)) =
        snd (snd (DrawMessage io (int (length ?pre)) m (?x, y')
               (int_of_s64 (TimeRemaining (clock (length pre)) m)))) # rest"
    using c by (auto simp: Let_def split_beta)
  then obtain rest where
    b: "snd (DrawMessages_loop True io clock ?x (0 + length pre) (0 + int (length ?pre)) y'
               ((ty, m) # post)) =
        snd (snd (DrawMessage io (int (length ?pre)) m (?x, y')
               (int_of_s64 (TimeRemaining (clock (length pre)) m)))) # rest"
    by blast
  have p: "calls_of True io clock s pre = ?pre"
    by (simp add: calls_of_def DrawMessages_def Let_def split_beta)
  have w: "calls_of True io clock s (pre @ (ty, m) # post) =
           ?pre @ snd (snd (DrawMessage io (int (length ?pre)) m (?x, y')
               (int_of_s64 (TimeRemaining (clock (length pre)) m)))) # rest"
    using a b by (simp add: calls_of_def DrawMessages_def Let_def split_beta)
  show ?thesis
    unfolding w p by (simp add: DrawMessage_def Let_def)
qed

text \<open>
  Claim C7, as amended. For every message that has never been drawn, \<open>DrawMessages\<close>
  removes it exactly when the time elapsed since its creation is at least its
  duration plus 5000 ms, that is 5000 ms past its expiry (for a duration of 0: at
  least 5000 ms). The elapsed time is below \<open>2 ^ 63\<close> ms, so that the remaining time
  does not wrap around.
\<close>

theorem DrawMessages_drops_undrawn_after_expiry:
  assumes "s_messages s = pre @ (type, msg) # post"
    and "\<not> ever_drawn msg"
    and "unat (ElapsedMs (clock (length pre)) (timer msg)) < 2 ^ 63"
  shows "s_messages (fst (DrawMessages draw imgui clock s)) =
     messages_after draw imgui clock s pre @
     (if unat (duration msg) + 5000 \<le> unat (ElapsedMs (clock (length pre)) (timer msg))
      then [] else [(type, if draw then msg\<lparr>ever_drawn := True\<rparr> else msg)]) @
     messages_after draw imgui (\<lambda>j. clock (j + Suc (length pre))) s post"
  using messages_after_entry [of draw imgui clock s pre type msg post]
    undrawn_removal_condition [OF assms(3)] assms(1,2)
  by (simp add: messages_after_own [symmetric])

text \<open>
  Claim C7 as stated fails: the duration matters. A message of 2000 ms that was never
  drawn is still live after a draw pass 5000 ms after its creation.
\<close>

theorem DrawMessages_keeps_undrawn_past_5000:
  "unat (ElapsedMs 5000 (timer (example_message 2000 False))) = 5000 \<and>
   \<not> ever_drawn (example_message 2000 False) \<and>
   s_messages (fst (DrawMessages False example_imgui (\<lambda>i. 5000)
     (example_osd [(0, example_message 2000 False)]))) = [(0, example_message 2000 False)]"
  by (simp add: example_defs eval_defs)

theorem DrawMessages_drops_undrawn_after_expiry_witness:
  "s_messages (example_osd [(0, example_message 2000 False)]) = [] @ (0, example_message 2000 False) # [] \<and>
   \<not> ever_drawn (example_message 2000 False) \<and>
   unat (ElapsedMs 7000 (timer (example_message 2000 False))) < 2 ^ 63 \<and>
   s_messages (fst (DrawMessages False example_imgui (\<lambda>i. 7000)
     (example_osd [(0, example_message 2000 False)]))) = []"
  using DrawMessages_drops_undrawn_after_expiry
    [of "example_osd [(0, example_message 2000 False)]" "[]" 0 "example_message 2000 False" "[]"
        "\<lambda>i. 7000" False example_imgui]
  by (simp add: example_defs eval_defs)

text \<open>
  Claim C8, as amended. A message added with a duration of 0 that has not been drawn
  is kept by every call of \<open>DrawMessages\<close> made less than 5000 ms after its creation.
  When OSD messages are enabled that call passes it to \<open>DrawMessage\<close>, which opens
  its window fully opaque, renders its text if \<open>ImGui::Begin\<close> returns true for the
  window (and nothing if it returns false), and marks the message as drawn in either
  case. A call made 5000 ms or more after its creation removes the message, rendered
  or not. So \<open>DrawMessages\<close> removes the message only after it has been passed to
  \<open>DrawMessage\<close> or once it has waited 5000 ms. The elapsed time is below \<open>2 ^ 63\<close> ms.
\<close>

theorem DrawMessages_zero_duration:
  assumes "s_messages s = pre @ (type, msg) # post"
    and "duration msg = 0"
    and "\<not> ever_drawn msg"
    and "unat (ElapsedMs (clock (length pre)) (timer msg)) < 2 ^ 63"
  shows
   "(unat (ElapsedMs (clock (length pre)) (timer msg)) < 5000 \<longrightarrow>
       s_messages (fst (DrawMessages draw imgui clock s)) =
         messages_after draw imgui clock s pre @
         (type, if draw then msg\<lparr>ever_drawn := True\<rparr> else msg) #
         messages_after draw imgui (\<lambda>j. clock (j + Suc (length pre))) s post \<and>
       (draw \<longrightarrow>
          length (calls_of True imgui clock s pre) < length (snd (DrawMessages True imgui clock s)) \<and>
          dc_alpha (snd (DrawMessages True imgui clock s) ! length (calls_of True imgui clock s pre)) = 1 \<and>
          dc_TextColored (snd (DrawMessages True imgui clock s) ! length (calls_of True imgui clock s pre)) =
            (case Begin imgui (int (length (calls_of True imgui clock s pre))) (msg_text msg) of
               Some y \<Rightarrow> Some (ARGBToImVec4 (color msg), msg_text msg)
             | None \<Rightarrow> None))) \<and>
    (5000 \<le> unat (ElapsedMs (clock (length pre)) (timer msg)) \<longrightarrow>
       s_messages (fst (DrawMessages draw imgui clock s)) =
         messages_after draw imgui clock s pre @
         messages_after draw imgui (\<lambda>j. clock (j + Suc (length pre))) s post)"
proof -
  let ?e = "unat (ElapsedMs (clock (length pre)) (timer msg))"
  let ?t = "TimeRemaining (clock (length pre)) msg"
  have rc: "?t \<le> 0 \<and> 5000 \<le> - ?t \<longleftrightarrow> 5000 \<le> ?e"
    using undrawn_removal_condition [OF assms(4)] assms(2) by simp
  have m: "s_messages (fst (DrawMessages draw imgui clock s)) =
     messages_after draw imgui clock s pre @
     (if 5000 \<le> ?e then [] else [(type, if draw then msg\<lparr>ever_drawn := True\<rparr> else msg)]) @
     messages_after draw imgui (\<lambda>j. clock (j + Suc (length pre))) s post"
    using messages_after_entry [of draw imgui clock s pre type msg post] assms(1,3) rc
    by (simp add: messages_after_own [symmetric])
  have c: "snd (DrawMessages True imgui clock s) = calls_of True imgui clock s (pre @ (type, msg) # post)"
    by (simp add: calls_of_def assms(1) [symmetric])
  have d: "length (calls_of True imgui clock s pre) < length (snd (DrawMessages True imgui clock s)) \<and>
          dc_alpha (snd (DrawMessages True imgui clock s) ! length (calls_of True imgui clock s pre)) = 1 \<and>
          dc_TextColored (snd (DrawMessages True imgui clock s) ! length (calls_of True imgui clock s pre)) =
            (case Begin imgui (int (length (calls_of True imgui clock s pre))) (msg_text msg) of
               Some y \<Rightarrow> Some (ARGBToImVec4 (color msg), msg_text msg)
             | None \<Rightarrow> None)"
    if "?e < 5000"
  proof -
    have "\<not> (?t \<le> 0 \<and> (ever_drawn msg \<or> 5000 \<le> - ?t))"
      using rc that assms(3) by auto
    then show ?thesis
      unfolding c
      using calls_of_entry_drawn [of clock pre msg imgui s type post] assms(3) by simp
  qed
  show ?thesis
    using m d by simp
qed

text \<open>
  Claim C8 as stated fails: a message of duration 0 whose first draw pass comes
  5000 ms after its creation is removed, and nothing is rendered.
\<close>

theorem zero_duration_dropped_undrawn:
  "s_messages (AddMessage 2 0 ''msg'' 0 0xFFFFFF00 OSD_init) = [(2, example_message 0 False)] \<and>
   DrawMessages True example_imgui (\<lambda>i. 5000) (AddMessage 2 0 ''msg'' 0 0xFFFFFF00 OSD_init) =
     (OSD_init, [])"
  by (simp add: example_defs eval_defs AddMessage_def emplace_def)

theorem DrawMessages_zero_duration_witness:
  "s_messages (example_osd [(2, example_message 0 False)]) = [] @ (2, example_message 0 False) # [] \<and>
   duration (example_message 0 False) = 0 \<and>
   \<not> ever_drawn (example_message 0 False) \<and>
   unat (ElapsedMs 4999 (timer (example_message 0 False))) < 2 ^ 63 \<and>
   unat (ElapsedMs 4999 (timer (example_message 0 False))) < 5000 \<and>
   s_messages (fst (DrawMessages True example_imgui (\<lambda>i. 4999)
     (example_osd [(2, example_message 0 False)]))) = [(2, example_message 0 True)] \<and>
   snd (DrawMessages True example_imgui (\<lambda>i. 4999) (example_osd [(2, example_message 0 False)])) =
     [\<lparr>dc_index = 0, dc_position = (10, 10), dc_alpha = 1,
       dc_TextColored = Some ((1, 1, 0, 1), ''msg'')\<rparr>]"
  using DrawMessages_zero_duration
    [of "example_osd [(2, example_message 0 False)]" "[]" 2 "example_message 0 False" "[]"
        "\<lambda>i. 4999" True example_imgui]
  by (simp add: example_defs eval_defs)

text \<open>
  Where \<open>ImGui::Begin\<close> returns false the message is marked as drawn without its text
  having been rendered, and the next draw pass removes it.
\<close>

lemma zero_duration_marked_drawn_without_text:
  "OSD_run 2
     [Call_AddMessage 0 ''msg'' 0 0xFFFFFF00,
      Call_DrawMessages True hidden_imgui (\<lambda>i. 0)] OSD_init =
     (example_osd [(2, example_message 0 True)],
      [\<lparr>dc_index = 0, dc_position = (10, 10), dc_alpha = 1, dc_TextColored = None\<rparr>]) \<and>
   DrawMessages True hidden_imgui (\<lambda>i. 16) (example_osd [(2, example_message 0 True)]) =
     (OSD_init, [])"
  by (simp add: example_defs hidden_imgui_def eval_defs OSD_run_def AddMessage_def emplace_def)

subsection \<open>The draw pass with OSD messages disabled\<close>








subsection \<open>The alpha of a draw call\<close>

text \<open>
  The time left reaches \<open>DrawMessage\<close> through a parameter of type \<open>int\<close>. Within the
  range of \<open>int\<close> the conversion changes nothing, and the alpha of a message that
  was drawn before is the clamped quotient of the remaining time and the fade time
  (\<open>calls_of_entry_drawn\<close>); the first draw has alpha 1.
\<close>

lemma int_of_s64_in_range:
  assumes "- (2 ^ 31) \<le> t" and "t < 2 ^ 31"
  shows "int_of_s64 t = t"
proof -
  have "sint (word_of_int t :: 32 word) = signed_take_bit (LENGTH(32) - 1) t"
    by (rule sint_sbintrunc')
  also have "\<dots> = signed_take_bit 31 t"
    by simp
  also have "\<dots> = t"
    using assms by (rule signed_take_bit_int_eq_self)
  finally show ?thesis
    by (simp add: int_of_s64_def)
qed

lemma alpha_within_int_range:
  assumes "\<not> (TimeRemaining (clock (length pre)) m \<le> 0 \<and>
              (ever_drawn m \<or> 5000 \<le> - TimeRemaining (clock (length pre)) m))"
    and "- (2 ^ 31) \<le> TimeRemaining (clock (length pre)) m"
    and "TimeRemaining (clock (length pre)) m < 2 ^ 31"
  shows "dc_alpha (calls_of True io clock s (pre @ (ty, m) # post) ! length (calls_of True io clock s pre)) =
           (if ever_drawn m
            then std_clamp (real_of_int (TimeRemaining (clock (length pre)) m)
                             / max (min MESSAGE_FADE_TIME (real (unat (duration m)))) 1) 0 1
            else 1)"
  using calls_of_entry_drawn [of clock pre m io s ty post] assms(1)
    int_of_s64_in_range [OF assms(2,3)]
  by simp

text \<open>
  Claim C9: for every message rendered by the draw pass the applied alpha is
  \<open>clamp(time_left / fade_window, 0, 1)\<close>, the fade window being the smaller of
  1000 ms and the duration and at least 1 ms, except on the first render of a
  message, where it is 1. The code departs from it for a remaining time of \<open>2 ^ 31\<close> ms
  or more, which the conversion to \<open>int\<close> makes negative: a message of 3000000000 ms
  is drawn fully opaque by the first draw pass and with alpha 0 by the next one,
  16 ms later, where the quotient of the claim gives 1.
\<close>

theorem alpha_of_message_of_long_duration:
  "TimeRemaining 16 (example_message 3000000000 True) = 2999999984 \<and>
   std_clamp (real_of_int (TimeRemaining 16 (example_message 3000000000 True))
      / max (min MESSAGE_FADE_TIME (real (unat (duration (example_message 3000000000 True))))) 1) 0 1 = 1 \<and>
   OSD_run 2
     [Call_AddMessage 0 ''msg'' 3000000000 0xFFFFFF00,
      Call_DrawMessages True example_imgui (\<lambda>i. 0)] OSD_init =
     (example_osd [(2, example_message 3000000000 True)],
      [\<lparr>dc_index = 0, dc_position = (10, 10), dc_alpha = 1,
        dc_TextColored = Some ((1, 1, 0, 1), ''msg'')\<rparr>]) \<and>
   snd (DrawMessages True example_imgui (\<lambda>i. 16) (example_osd [(2, example_message 3000000000 True)])) =
     [\<lparr>dc_index = 0, dc_position = (10, 10), dc_alpha = 0,
       dc_TextColored = Some ((1, 1, 0, 1), ''msg'')\<rparr>]"
  by (simp add: example_defs eval_defs OSD_run_def AddMessage_def emplace_def)

subsection \<open>One message per category\<close>

lemma count_key_emplace:
  "count_key k' (emplace k v xs) = count_key k' xs + (if k = k' then 1 else 0)"
proof -
  have "filter (\<lambda>e. fst e = k') xs =
        filter (\<lambda>e. fst e = k') (takeWhile (\<lambda>e. fst e \<le> k) xs) @
        filter (\<lambda>e. fst e = k') (dropWhile (\<lambda>e. fst e \<le> k) xs)"
    by (metis filter_append takeWhile_dropWhile_id)
  then show ?thesis
    by (simp add: count_key_def emplace_def)
qed

lemma count_key_erase:
  "count_key k' (erase k xs) = (if k = k' then 0 else count_key k' xs)"
  by (induction xs) (auto simp: count_key_def erase_def)

lemma filter_key_emplace_erase:
  "filter (\<lambda>e. fst e = k) (emplace k v (erase k xs)) = [(k, v)]"
proof -
  have "filter (\<lambda>e. fst e = k) (erase k xs) = []"
    by (induction xs) (auto simp: erase_def)
  then have none: "\<forall>e \<in> set (erase k xs). fst e \<noteq> k"
    by (simp add: filter_empty_conv)
  have "filter (\<lambda>e. fst e = k) (takeWhile (\<lambda>e. fst e \<le> k) (erase k xs)) = []"
    using none by (auto simp: filter_empty_conv dest: set_takeWhileD)
  moreover have "filter (\<lambda>e. fst e = k) (dropWhile (\<lambda>e. fst e \<le> k) (erase k xs)) = []"
    using none by (auto simp: filter_empty_conv dest: set_dropWhileD)
  ultimately show ?thesis
    by (simp add: emplace_def)
qed

lemma count_key_loop:
  "count_key k (fst (DrawMessages_loop d io clock x i index y xs)) \<le> count_key k xs"
proof (induction xs arbitrary: d i index y)
  case Nil
  show ?case by (simp add: count_key_def)
next
  case (Cons e xs)
  obtain ty m where e: "e = (ty, m)" by (cases e)
  have "count_key k (fst (DrawMessages_loop d' io clock x (Suc i) index' y' xs)) \<le> count_key k xs"
    for d' index' y'
    by (rule Cons.IH)
  note IH = this [unfolded count_key_def]
  show ?case
    unfolding e count_key_def
    by (auto simp: Let_def split_beta le_SucI IH)
qed

lemma count_key_DrawMessages:
  "count_key k (s_messages (fst (DrawMessages d io clock s))) \<le> count_key k (s_messages s)"
  by (simp add: DrawMessages_def Let_def split_beta count_key_loop)

lemma OSD_step_one_per_category:
  assumes "\<forall>type. type \<noteq> Typeless \<longrightarrow> count_key type (s_messages (fst st)) \<le> 1"
  shows "\<forall>type. type \<noteq> Typeless \<longrightarrow> count_key type (s_messages (fst (OSD_step Typeless st c))) \<le> 1"
proof -
  obtain s drawn where st: "st = (s, drawn)" by (cases st)
  show ?thesis
  proof (cases c)
    case (Call_AddTypedMessage now type' message ms argb)
    then show ?thesis
      using assms by (simp add: st AddTypedMessage_def count_key_emplace count_key_erase)
  next
    case (Call_AddMessage now message ms argb)
    then show ?thesis
      using assms by (simp add: st AddMessage_def count_key_emplace)
  next
    case (Call_DrawMessages d io clock)
    have "count_key type (s_messages (fst (DrawMessages d io clock s))) \<le> 1"
      if "type \<noteq> Typeless" for type
      using that assms count_key_DrawMessages [of type d io clock s]
      by (auto simp: st intro: order_trans)
    then show ?thesis
      by (simp add: st Call_DrawMessages split_beta)
  next
    case Call_ClearMessages
    then show ?thesis
      by (simp add: st ClearMessages_def count_key_def)
  qed
qed

lemma foldl_OSD_step_one_per_category:
  assumes "\<forall>type. type \<noteq> Typeless \<longrightarrow> count_key type (s_messages (fst st)) \<le> 1"
  shows "\<forall>type. type \<noteq> Typeless \<longrightarrow>
           count_key type (s_messages (fst (foldl (OSD_step Typeless) st calls))) \<le> 1"
  using assms
proof (induction calls arbitrary: st)
  case Nil
  then show ?case by simp
next
  case (Cons c calls)
  show ?case
    using Cons.IH [OF OSD_step_one_per_category [OF Cons.prems, of c]] by simp
qed

lemma OSD_run_snoc:
  "OSD_run Typeless (calls @ [c]) s = OSD_step Typeless (OSD_run Typeless calls s) c"
  by (simp add: OSD_run_def)

lemma count_key_AddMessage:
  "count_key type (s_messages (AddMessage Typeless now message ms argb s)) =
   count_key type (s_messages s) + (if type = Typeless then 1 else 0)"
  by (auto simp: AddMessage_def count_key_emplace)

text \<open>
  Claim C2. At every point in time (after every history of calls from the empty
  overlay) every category other than Typeless has at most one live message, a new
  \<open>AddTypedMessage\<close> of a category replacing the old message; Typeless messages
  added by \<open>AddMessage\<close> coexist without bound (\<open>n\<close> calls add \<open>n\<close> of them); and
  after \<open>AddTypedMessage\<close> of a category \<open>C\<close> with \<open>t1\<close> followed by one with \<open>t2\<close>,
  the message of \<open>t2\<close> is the only live message of \<open>C\<close>.
\<close>

theorem one_message_per_category:
  "(\<forall>type. type \<noteq> Typeless \<longrightarrow>
      count_key type (s_messages (fst (OSD_run Typeless calls OSD_init))) \<le> 1) \<and>
   count_key Typeless (s_messages (fst (OSD_run Typeless
      (map (\<lambda>i. Call_AddMessage (now i) (message i) (ms i) (argb i)) [0..<n]) s))) =
     count_key Typeless (s_messages s) + n \<and>
   filter (\<lambda>e. fst e = C)
      (s_messages (AddTypedMessage now2 C t2 ms2 argb2 (AddTypedMessage now1 C t1 ms1 argb1 s))) =
     [(C, Message_init now2 t2 ms2 argb2)]"
proof (intro conjI)
  show "\<forall>type. type \<noteq> Typeless \<longrightarrow>
      count_key type (s_messages (fst (OSD_run Typeless calls OSD_init))) \<le> 1"
    unfolding OSD_run_def
    by (rule foldl_OSD_step_one_per_category) (simp add: OSD_init_def count_key_def)
  show "count_key Typeless (s_messages (fst (OSD_run Typeless
      (map (\<lambda>i. Call_AddMessage (now i) (message i) (ms i) (argb i)) [0..<n]) s))) =
     count_key Typeless (s_messages s) + n"
  proof (induction n)
    case 0
    show ?case by (simp add: OSD_run_def)
  next
    case (Suc n)
    obtain s' drawn where r: "OSD_run Typeless
        (map (\<lambda>i. Call_AddMessage (now i) (message i) (ms i) (argb i)) [0..<n]) s = (s', drawn)"
      by (cases "OSD_run Typeless
        (map (\<lambda>i. Call_AddMessage (now i) (message i) (ms i) (argb i)) [0..<n]) s")
    show ?case
      using Suc by (simp add: OSD_run_snoc r count_key_AddMessage)
  qed
  show "filter (\<lambda>e. fst e = C)
      (s_messages (AddTypedMessage now2 C t2 ms2 argb2 (AddTypedMessage now1 C t1 ms1 argb1 s))) =
     [(C, Message_init now2 t2 ms2 argb2)]"
    by (simp add: AddTypedMessage_def filter_key_emplace_erase)
qed

theorem one_message_per_category_witness:
  "(1::int) \<noteq> 2 \<and>
   s_messages (fst (OSD_run 2
     [Call_AddTypedMessage 0 1 ''ping 20'' 2000 0xFFFFFFFF, Call_AddMessage 1 ''saved'' 2000 0xFFFFFFFF,
      Call_AddTypedMessage 10 1 ''ping 25'' 2000 0xFFFFFFFF, Call_AddMessage 11 ''loaded'' 2000 0xFFFFFFFF]
     OSD_init)) =
   [(1, Message_init 10 ''ping 25'' 2000 0xFFFFFFFF), (2, Message_init 1 ''saved'' 2000 0xFFFFFFFF),
    (2, Message_init 11 ''loaded'' 2000 0xFFFFFFFF)] \<and>
   count_key 1 (s_messages (fst (OSD_run 2
     [Call_AddTypedMessage 0 1 ''ping 20'' 2000 0xFFFFFFFF, Call_AddMessage 1 ''saved'' 2000 0xFFFFFFFF,
      Call_AddTypedMessage 10 1 ''ping 25'' 2000 0xFFFFFFFF, Call_AddMessage 11 ''loaded'' 2000 0xFFFFFFFF]
     OSD_init))) \<le> 1"
  using one_message_per_category
    [of 2 "[Call_AddTypedMessage 0 1 ''ping 20'' 2000 0xFFFFFFFF, Call_AddMessage 1 ''saved'' 2000 0xFFFFFFFF,
      Call_AddTypedMessage 10 1 ''ping 25'' 2000 0xFFFFFFFF, Call_AddMessage 11 ''loaded'' 2000 0xFFFFFFFF]"]
  by (simp add: OSD_run_def AddTypedMessage_def AddMessage_def emplace_def erase_def OSD_init_def)

section \<open>Properties of the display geometry\<close>

subsection \<open>Clamping the target to the framebuffer\<close>

text \<open>
  Claim C4. For every target and source rectangle and all framebuffer bounds,
  \<open>AdjustRectanglesToFitBounds\<close> handles each of the four sides on its own: a side of
  the target that lies outside \<open>[0, fb_width] \<times> [0, fb_height]\<close> is set to the bound,
  and the same side of the source is moved by
  \<open>offset * original source extent / original target extent\<close> (integer division
  truncating towards zero), both extents taken before any side was clamped. The
  function returns no result only where that quotient does not exist: a side of an
  axis has to be clamped and the target's original extent on that axis is 0. For
  target \<open>{-10,0,100,50}\<close>, source \<open>{0,0,110,50}\<close> and bounds \<open>200 \<times> 200\<close> the
  result is target \<open>{0,0,100,50}\<close> and source \<open>{10,0,110,50}\<close>.
\<close>

theorem AdjustRectanglesToFitBounds_sides:
  "AdjustRectanglesToFitBounds t s fb_width fb_height =
     (if ((left t < 0 \<or> right t > fb_width) \<and> GetWidth t = 0) \<or>
         ((top' t < 0 \<or> bottom t > fb_height) \<and> GetHeight t = 0)
      then None
      else Some
        (\<lparr>left = (if left t < 0 then 0 else left t),
          top' = (if top' t < 0 then 0 else top' t),
          right = (if right t > fb_width then fb_width else right t),
          bottom = (if bottom t > fb_height then fb_height else bottom t)\<rparr>,
         \<lparr>left = (if left t < 0
                  then left s + (- left t * GetWidth s) sdiv GetWidth t else left s),
          top' = (if top' t < 0
                  then top' s + (- top' t * GetHeight s) sdiv GetHeight t else top' s),
          right = (if right t > fb_width
                   then right s - ((right t - fb_width) * GetWidth s) sdiv GetWidth t
                   else right s),
          bottom = (if bottom t > fb_height
                    then bottom s - ((bottom t - fb_height) * GetHeight s) sdiv GetHeight t
                    else bottom s)\<rparr>))
   \<and> AdjustRectanglesToFitBounds
         \<lparr>left = - 10, top' = 0, right = 100, bottom = 50\<rparr>
         \<lparr>left = 0, top' = 0, right = 110, bottom = 50\<rparr> 200 200 =
       Some (\<lparr>left = 0, top' = 0, right = 100, bottom = 50\<rparr>,
             \<lparr>left = 10, top' = 0, right = 110, bottom = 50\<rparr>)"
  by (simp add: AdjustRectanglesToFitBounds_def int_div_def Let_def GetWidth_def GetHeight_def)


theorem AdjustRectanglesToFitBounds_sides_witness:
  "AdjustRectanglesToFitBounds
     \<lparr>left = 0, top' = 0, right = 300, bottom = 250\<rparr>
     \<lparr>left = 0, top' = 0, right = 640, bottom = 480\<rparr> 200 200 =
   Some (\<lparr>left = 0, top' = 0, right = 200, bottom = 200\<rparr>,
         \<lparr>left = 0, top' = 0, right = 427, bottom = 384\<rparr>)"
  using AdjustRectanglesToFitBounds_sides
    [of "\<lparr>left = 0, top' = 0, right = 300, bottom = 250\<rparr>"
        "\<lparr>left = 0, top' = 0, right = 640, bottom = 480\<rparr>" 200 200]
  by (simp add: GetWidth_def GetHeight_def)

text \<open>A target of width 0 left of the framebuffer: the division by zero.\<close>

lemma AdjustRectanglesToFitBounds_traps:
  "AdjustRectanglesToFitBounds
     \<lparr>left = - 5, top' = 0, right = - 5, bottom = 10\<rparr>
     \<lparr>left = 0, top' = 0, right = 640, bottom = 480\<rparr> 200 200 = None"
  by (simp add: AdjustRectanglesToFitBounds_def int_div_def Let_def GetWidth_def GetHeight_def)

subsection \<open>The stereo split\<close>

text \<open>
  Claim C5. For every input rectangle, in top-and-bottom and in side-by-side mode,
  \<open>ConvertStereoRectangle\<close> shrinks the rectangle on the split axis, moving each of
  its two bounds on that axis inwards by 25% of the rectangle's extent (a quarter of
  the signed extent, truncated towards zero), and returns two copies of the result,
  offset on that axis by minus and by plus a quarter of the backbuffer's dimension.
  In top-and-bottom mode with a backbuffer height of 400 the rectangle
  \<open>{0,0,640,400}\<close> gives \<open>{0,0,640,200}\<close> and \<open>{0,200,640,400}\<close>.
\<close>

theorem ConvertStereoRectangle_split:
  "(stereo_mode cfg = TAB \<longrightarrow>
      stereo_draw_rc cfg rc =
        rc\<lparr>top' := top' rc + (bottom rc - top' rc) sdiv 4,
           bottom := bottom rc - (bottom rc - top' rc) sdiv 4\<rparr> \<and>
      ConvertStereoRectangle cfg p rc =
        ((stereo_draw_rc cfg rc)
           \<lparr>top' := top' (stereo_draw_rc cfg rc) - m_backbuffer_height p sdiv 4,
            bottom := bottom (stereo_draw_rc cfg rc) - m_backbuffer_height p sdiv 4\<rparr>,
         (stereo_draw_rc cfg rc)
           \<lparr>top' := top' (stereo_draw_rc cfg rc) + m_backbuffer_height p sdiv 4,
            bottom := bottom (stereo_draw_rc cfg rc) + m_backbuffer_height p sdiv 4\<rparr>)) \<and>
   (stereo_mode cfg = SBS \<longrightarrow>
      stereo_draw_rc cfg rc =
        rc\<lparr>left := left rc + (right rc - left rc) sdiv 4,
           right := right rc - (right rc - left rc) sdiv 4\<rparr> \<and>
      ConvertStereoRectangle cfg p rc =
        ((stereo_draw_rc cfg rc)
           \<lparr>left := left (stereo_draw_rc cfg rc) - m_backbuffer_width p sdiv 4,
            right := right (stereo_draw_rc cfg rc) - m_backbuffer_width p sdiv 4\<rparr>,
         (stereo_draw_rc cfg rc)
           \<lparr>left := left (stereo_draw_rc cfg rc) + m_backbuffer_width p sdiv 4,
            right := right (stereo_draw_rc cfg rc) + m_backbuffer_width p sdiv 4\<rparr>)) \<and>
   ConvertStereoRectangle
     \<lparr>aspect_mode = Auto, bCrop = False, stereo_mode = TAB, bWidescreenHack = False\<rparr>
     \<lparr>m_backbuffer_width = 640, m_backbuffer_height = 400,
      m_target_rectangle = \<lparr>left = 0, top' = 0, right = 640, bottom = 400\<rparr>\<rparr>
     \<lparr>left = 0, top' = 0, right = 640, bottom = 400\<rparr> =
   (\<lparr>left = 0, top' = 0, right = 640, bottom = 200\<rparr>,
    \<lparr>left = 0, top' = 200, right = 640, bottom = 400\<rparr>)"
  by (simp add: ConvertStereoRectangle_def stereo_draw_rc_def Let_def)

theorem ConvertStereoRectangle_split_witness:
  "stereo_mode \<lparr>aspect_mode = Auto, bCrop = False, stereo_mode = SBS, bWidescreenHack = False\<rparr> = SBS \<and>
   ConvertStereoRectangle
     \<lparr>aspect_mode = Auto, bCrop = False, stereo_mode = SBS, bWidescreenHack = False\<rparr>
     \<lparr>m_backbuffer_width = 1280, m_backbuffer_height = 720,
      m_target_rectangle = \<lparr>left = 0, top' = 0, right = 0, bottom = 0\<rparr>\<rparr>
     \<lparr>left = 160, top' = 0, right = 1120, bottom = 720\<rparr> =
   (\<lparr>left = 80, top' = 0, right = 560, bottom = 720\<rparr>,
    \<lparr>left = 720, top' = 0, right = 1200, bottom = 720\<rparr>)"
  using ConvertStereoRectangle_split
    [of "\<lparr>aspect_mode = Auto, bCrop = False, stereo_mode = SBS, bWidescreenHack = False\<rparr>"
        "\<lparr>left = 160, top' = 0, right = 1120, bottom = 720\<rparr>"
        "\<lparr>m_backbuffer_width = 1280, m_backbuffer_height = 720,
          m_target_rectangle = \<lparr>left = 0, top' = 0, right = 0, bottom = 0\<rparr>\<rparr>"]
  by (simp add: stereo_draw_rc_def)

subsection \<open>Rounding down to a multiple of 4\<close>

lemma round_down_to_multiple_of_4:
  fixes n :: int
  assumes "0 \<le> n"
  shows "n - n smod 4 = n - n mod 4" and "4 dvd n - n smod 4" and "0 \<le> n - n smod 4"
    and "n - n smod 4 \<le> n" and "n - 3 \<le> n - n smod 4"
proof -
  show e: "n - n smod 4 = n - n mod 4"
    using assms by (simp add: smod_mod_positive)
  show "4 dvd n - n smod 4"
    unfolding e by (rule dvd_minus_mod)
  show "0 \<le> n - n smod 4" "n - n smod 4 \<le> n" "n - 3 \<le> n - n smod 4"
    unfolding e using assms by presburger+
qed

lemma truncated_remainder_multiple_of_4:
  fixes n :: int
  shows "4 dvd n - n smod 4"
proof (cases "0 \<le> n")
  case True
  then show ?thesis
    by (rule round_down_to_multiple_of_4)
next
  case False
  then have "n smod 4 = - ((- n) mod 4)"
    by (simp add: signed_modulo_int_def sgn_if)
  moreover have "4 dvd n + (- n) mod 4"
    by presburger
  ultimately show ?thesis
    by simp
qed

subsection \<open>Values that need no rounding\<close>

text \<open>
  An integer of magnitude at most \<open>2 ^ 24\<close> is a value of \<open>binary32\<close>, and half an
  integer of magnitude at most \<open>2 ^ 25\<close> is a value of \<open>binary64\<close>: rounding leaves
  them as they are, so the operations on them are exact.
\<close>

lemma pow2_pos: "0 < pow2 k"
  by (simp add: pow2_def)

lemma round_half_even_of_int: "round_half_even (of_int m) = m"
  by (simp add: round_half_even_def)

lemma ilog2_upper:
  assumes "0 < a" and "a < 2 ^ K" and "1 \<le> K"
  shows "ilog2 a \<le> int K - 1"
proof (cases "1 \<le> a")
  case True
  have "\<lfloor>a\<rfloor> < 2 ^ K"
    using assms(2) by (simp add: floor_less_iff)
  then have "bitlen \<lfloor>a\<rfloor> \<le> int K"
    by (simp add: bitlen_le_iff_power)
  with True show ?thesis
    by (simp add: ilog2_def)
next
  case False
  have "0 \<le> bitlen (\<lceil>1 / a\<rceil> - 1)"
    by (rule bitlen_nonneg)
  with False assms(3) show ?thesis
    by (simp add: ilog2_def)
qed

lemma round_to_representable:
  assumes "q \<noteq> 0"
    and "\<bar>q\<bar> = of_int m * pow2 (max (ilog2 \<bar>q\<bar>) (1 - emax fmt) - (int (precision fmt) - 1))"
    and "\<bar>q\<bar> < pow2 (emax fmt + 1)"
  shows "round_to fmt q = Finite q"
proof -
  define u where "u = pow2 (max (ilog2 \<bar>q\<bar>) (1 - emax fmt) - (int (precision fmt) - 1))"
  have u: "0 < u"
    by (simp add: u_def pow2_pos)
  have a: "\<bar>q\<bar> = of_int m * u"
    using assms(2) by (simp add: u_def)
  then have quot: "\<bar>q\<bar> / u = of_int m"
    using u by simp
  have m: "m \<noteq> 0"
    using a assms(1) by auto
  have rh: "round_half_even (\<bar>q\<bar> / u) = m"
    by (simp add: quot round_half_even_of_int)
  show ?thesis
    unfolding round_to_def Let_def u_def [symmetric] rh
    using assms(1,3) m a [symmetric] by auto
qed

lemma round_to_dyadic:
  assumes "\<bar>rat_of_int n\<bar> / 2 ^ k < 2 ^ K"
    and "1 \<le> K"
    and "K + k \<le> precision fmt"
    and "int k + 2 \<le> int (precision fmt) + emax fmt"
    and "int K \<le> emax fmt + 1"
  shows "round_to fmt (of_int n / 2 ^ k) = Finite (of_int n / 2 ^ k)"
proof (cases "n = 0")
  case True
  then show ?thesis
    by (simp add: round_to_def)
next
  case False
  define q :: rat where "q = of_int n / 2 ^ k"
  have q: "q \<noteq> 0"
    using False by (simp add: q_def)
  have aq: "\<bar>q\<bar> = \<bar>of_int n\<bar> / 2 ^ k"
    by (simp add: q_def)
  have lt: "\<bar>q\<bar> < 2 ^ K"
    using assms(1) by (simp add: aq)
  have pos: "0 < \<bar>q\<bar>"
    using q by simp
  define d where "d = max (ilog2 \<bar>q\<bar>) (1 - emax fmt) - (int (precision fmt) - 1)"
  have "ilog2 \<bar>q\<bar> \<le> int K - 1"
    by (rule ilog2_upper [OF pos lt assms(2)])
  then have d: "d \<le> - int k"
    using assms(3,4) by (simp add: d_def)
  define j where "j = nat (- d) - k"
  have nd: "nat (- d) = j + k"
    using d by (simp add: j_def)
  have "pow2 d = 1 / 2 ^ nat (- d)"
    using d by (cases "d = 0") (simp_all add: pow2_def)
  then have pw: "pow2 d = 1 / 2 ^ (j + k)"
    by (simp only: nd)
  have rep: "\<bar>q\<bar> = of_int (\<bar>n\<bar> * 2 ^ j) * pow2 d"
    by (simp add: aq pw power_add)
  have "(2::rat) ^ K \<le> pow2 (emax fmt + 1)"
  proof -
    have "0 \<le> emax fmt + 1"
      using assms(5) by simp
    moreover have "K \<le> nat (emax fmt + 1)"
      using assms(5) by simp
    ultimately show ?thesis
      by (simp add: pow2_def power_increasing)
  qed
  with lt have "\<bar>q\<bar> < pow2 (emax fmt + 1)"
    by simp
  from round_to_representable [OF q rep [unfolded d_def] this]
  show ?thesis
    by (simp add: q_def)
qed

lemma float_of_int_small:
  assumes "\<bar>n\<bar> < 2 ^ 24"
  shows "float_of_int n = Finite (of_int n)"
proof -
  have "\<bar>rat_of_int n\<bar> < 2 ^ 24"
  proof -
    have "rat_of_int \<bar>n\<bar> < rat_of_int (2 ^ 24)"
      using assms by (simp only: of_int_less_iff)
    then show ?thesis by simp
  qed
  then have "round_to binary32 (of_int n / 2 ^ 0) = Finite (of_int n / 2 ^ 0)"
    by (intro round_to_dyadic [where K = 24]) (simp_all add: binary32_def)
  then show ?thesis
    by (simp add: float_of_int_def)
qed

lemma float_of_int_exact:
  assumes "\<bar>n\<bar> \<le> 2 ^ 24"
  shows "float_of_int n = Finite (of_int n)"
proof -
  have p: "float_of_int (2 ^ 24) = Finite (of_int (2 ^ 24))"
    unfolding float_of_int_def by code_simp
  have m: "float_of_int (- (2 ^ 24)) = Finite (of_int (- (2 ^ 24)))"
    unfolding float_of_int_def by code_simp
  from assms consider "\<bar>n\<bar> < 2 ^ 24" | "n = 2 ^ 24" | "n = - (2 ^ 24)"
    by linarith
  then show ?thesis
  proof cases
    case 1
    then show ?thesis by (rule float_of_int_small)
  next
    case 2
    show ?thesis unfolding 2 by (rule p)
  next
    case 3
    show ?thesis unfolding 3 by (rule m)
  qed
qed

lemma double_half_exact:
  assumes "\<bar>n\<bar> \<le> 2 ^ 25"
  shows "round_to binary64 (of_int n / 2) = Finite (of_int n / 2)"
proof -
  have "rat_of_int \<bar>n\<bar> \<le> rat_of_int (2 ^ 25)"
    using assms by (simp only: of_int_le_iff)
  then have "\<bar>rat_of_int n\<bar> / 2 ^ 1 < 2 ^ 25"
    by simp
  then have "round_to binary64 (of_int n / 2 ^ 1) = Finite (of_int n / 2 ^ 1)"
    by (intro round_to_dyadic [where K = 25]) (simp_all add: binary64_def)
  then show ?thesis
    by simp
qed

lemma int_of_float_Finite_of_int:
  assumes "- (2 ^ 31) \<le> n" and "n < 2 ^ 31"
  shows "int_of_float (Finite (of_int n)) = Some n"
  using assms by simp

lemma std_ceil_nonneg:
  assumes "0 \<le> d"
  shows "std_ceil (Finite d) = Finite (of_int \<lceil>d\<rceil>)"
  using assms by simp

lemma fsub_binary32_int:
  assumes "\<bar>a - b\<bar> \<le> 2 ^ 24"
  shows "fsub binary32 (Finite (of_int a)) (Finite (of_int b)) = Finite (of_int (a - b))"
proof (cases "a = b")
  case True
  then show ?thesis
    by (simp add: fsub_def signed_zero_def)
next
  case False
  have "round_to binary32 (of_int (a - b)) = Finite (of_int (a - b))"
    using float_of_int_exact [OF assms] by (simp only: float_of_int_def)
  with False show ?thesis
    by (simp add: fsub_def)
qed

lemma fdiv_binary64_half:
  assumes "\<bar>n\<bar> \<le> 2 ^ 25"
  shows "fdiv binary64 (double_of_float (Finite (of_int n))) (Finite 2) = Finite (of_int n / 2)"
proof (cases "n = 0")
  case True
  then show ?thesis
    by (simp add: fdiv_def signed_zero_def double_of_float_def)
next
  case False
  with double_half_exact [OF assms] show ?thesis
    by (simp add: fdiv_def double_of_float_def)
qed

lemma fsub_binary64_half:
  assumes "\<bar>a - b\<bar> \<le> 2 ^ 25"
  shows "fsub binary64 (Finite (of_int a / 2)) (Finite (of_int b / 2)) = Finite (of_int (a - b) / 2)"
proof (cases "a = b")
  case True
  then show ?thesis
    by (simp add: fsub_def signed_zero_def)
next
  case False
  with double_half_exact [OF assms] show ?thesis
    by (simp add: fsub_def diff_divide_distrib)
qed

lemma symmetric_centering:
  assumes "\<bar>k\<bar> \<le> 2 ^ 25"
  shows "int_of_float (std_round (Finite (of_int k / 2))) =
         Some (if 0 \<le> k then (k + 1) div 2 else - ((1 - k) div 2))"
proof -
  have "rat_of_int k / 2 + 1 / 2 = rat_of_int (k + 1) / rat_of_int 2"
    by simp
  then have up: "\<lfloor>rat_of_int k / 2 + 1 / 2\<rfloor> = (k + 1) div 2"
    by (simp only: floor_divide_of_int_eq)
  have "rat_of_int k / 2 - 1 / 2 = rat_of_int (k - 1) / rat_of_int 2"
    by (simp add: field_simps)
  then have "\<lceil>rat_of_int k / 2 - 1 / 2\<rceil> = - ((- (k - 1)) div 2)"
    by (simp only: ceiling_divide_eq_div)
  then have down: "\<lceil>rat_of_int k / 2 - 1 / 2\<rceil> = - ((1 - k) div 2)"
    by simp
  have k: "- 33554432 \<le> k" "k \<le> 33554432"
    using assms by simp_all
  show ?thesis
  proof (cases "0 \<le> k")
    case True
    have "- 2147483648 \<le> (k + 1) div 2" and "(k + 1) div 2 < 2147483648"
      using k True by presburger+
    then have "- (2 ^ 31) \<le> (k + 1) div 2" and "(k + 1) div 2 < 2 ^ 31"
      by simp_all
    then have "int_of_float (Finite (of_int ((k + 1) div 2))) = Some ((k + 1) div 2)"
      by (rule int_of_float_Finite_of_int)
    with True show ?thesis
      by (simp only: std_round.simps up) simp
  next
    case False
    have "- 2147483648 \<le> - ((1 - k) div 2)" and "- ((1 - k) div 2) < 2147483648"
      using k False by presburger+
    then have b: "- (2 ^ 31) \<le> - ((1 - k) div 2)" "- ((1 - k) div 2) < 2 ^ 31"
      by simp_all
    have i: "int_of_float (Finite (of_int (- ((1 - k) div 2)))) = Some (- ((1 - k) div 2))"
      using b by (rule int_of_float_Finite_of_int)
    have n: "\<not> 0 \<le> rat_of_int k / 2"
      using False by simp
    show ?thesis
    proof (cases "(1 - k) div 2 = 0")
      case True
      with False n show ?thesis
        by (simp add: down)
    next
      case nz: False
      with False n i show ?thesis
        by (simp add: down)
    qed
  qed
qed

subsection \<open>Output dimensions\<close>

text \<open>
  Whatever \<open>CalculateOutputDimensions\<close> returns is the result for the requested
  dimensions clamped to at least 1, and a pair of multiples of 4. Where the scaled and
  cropped dimensions are finite, at least 0 and within the range of \<open>int\<close>, it returns
  their ceilings rounded down to multiples of 4, which are at least 0.
\<close>

lemma CalculateOutputDimensions_clamps:
  "CalculateOutputDimensions cfg em p width height =
   CalculateOutputDimensions cfg em p (max width 1) (max height 1)"
  by (simp add: CalculateOutputDimensions_def Let_def)

lemma CalculateOutputDimensions_divisible:
  assumes "CalculateOutputDimensions cfg em p width height = Some (w, h)"
  shows "4 dvd w" and "4 dvd h"
  using assms truncated_remainder_multiple_of_4
  by (auto simp: CalculateOutputDimensions_def Let_def split_beta split: Option.bind_splits)

lemma CalculateOutputDimensions_finite:
  assumes "ScaleToDisplayAspectRatio cfg em p (max width 1) (max height 1) =
             (scaled_width, scaled_height)"
    and "ApplyStandardAspectCrop cfg em scaled_width scaled_height = (Finite cw, Finite ch)"
    and "0 \<le> cw" and "cw < 2 ^ 31 - 1" and "0 \<le> ch" and "ch < 2 ^ 31 - 1"
  shows "CalculateOutputDimensions cfg em p width height =
           Some (\<lceil>cw\<rceil> - \<lceil>cw\<rceil> mod 4, \<lceil>ch\<rceil> - \<lceil>ch\<rceil> mod 4)"
    and "0 \<le> \<lceil>cw\<rceil> - \<lceil>cw\<rceil> mod 4" and "0 \<le> \<lceil>ch\<rceil> - \<lceil>ch\<rceil> mod 4"
proof -
  have w0: "0 \<le> \<lceil>cw\<rceil>" and h0: "0 \<le> \<lceil>ch\<rceil>"
    using assms(3,5) by simp_all
  have "cw \<le> of_int (2 ^ 31 - 1)" and "ch \<le> of_int (2 ^ 31 - 1)"
    using assms(4,6) by simp_all
  then have "\<lceil>cw\<rceil> \<le> 2 ^ 31 - 1" and "\<lceil>ch\<rceil> \<le> 2 ^ 31 - 1"
    by (simp_all only: ceiling_le_iff)
  then have w1: "\<lceil>cw\<rceil> < 2 ^ 31" and h1: "\<lceil>ch\<rceil> < 2 ^ 31"
    by simp_all
  have cw: "int_of_float (std_ceil (Finite cw)) = Some \<lceil>cw\<rceil>"
    unfolding std_ceil_nonneg [OF assms(3)]
    by (rule int_of_float_Finite_of_int) (use w0 w1 in simp_all)
  have ch: "int_of_float (std_ceil (Finite ch)) = Some \<lceil>ch\<rceil>"
    unfolding std_ceil_nonneg [OF assms(5)]
    by (rule int_of_float_Finite_of_int) (use h0 h1 in simp_all)
  show "CalculateOutputDimensions cfg em p width height =
          Some (\<lceil>cw\<rceil> - \<lceil>cw\<rceil> mod 4, \<lceil>ch\<rceil> - \<lceil>ch\<rceil> mod 4)"
    using round_down_to_multiple_of_4(1) [OF w0] round_down_to_multiple_of_4(1) [OF h0]
    by (simp add: CalculateOutputDimensions_def Let_def assms(1,2) cw ch
        del: std_ceil.simps int_of_float.simps)
  show "0 \<le> \<lceil>cw\<rceil> - \<lceil>cw\<rceil> mod 4" and "0 \<le> \<lceil>ch\<rceil> - \<lceil>ch\<rceil> mod 4"
    using w0 h0 by presburger+
qed

text \<open>
  Claim C3: for every requested width and height, zero and negative values included,
  \<open>CalculateOutputDimensions\<close> clamps both to at least 1, scales them to the current
  draw aspect ratio by growing the axis that is short, applies the standard-aspect
  crop, and returns two dimensions that are each a multiple of 4 and at least 0. The
  code departs from it where the draw aspect ratio is not a number. In aspect mode
  \<open>Stretch\<close> with a backbuffer of 0 by 0, the state of a presenter before its first
  \<open>SetBackbuffer\<close>, the draw aspect ratio is \<open>0.0f / 0.0f\<close>, a NaN; the comparison
  with it is false, so the width is scaled and becomes NaN; \<open>std::ceil\<close> leaves it
  NaN, and the conversion of NaN to \<open>int\<close> is undefined: for a request of 640 by 528
  the function returns no defined dimensions, where the claim promises two multiples
  of 4 that are at least 0. A requested width of \<open>2 ^ 31 - 1\<close> has no defined result
  either: as a \<open>float\<close> it is \<open>2 ^ 31\<close>, beyond the range of \<open>int\<close>. With a backbuffer
  of 1280 by 720 and an aspect ratio of \<open>4.0f / 3.0f\<close> the request of 640 by 528 gives
  704 by 528, and 0 by \<open>-5\<close> is treated as 1 by 1; with an aspect ratio of 3/2 the
  crop to 4:3 turns 792 by 528 into 704 by 528; in mode \<open>AnalogWide\<close> 3440 by 1440
  becomes 3440 by 1936.
\<close>

theorem CalculateOutputDimensions_stretch_empty_backbuffer:
  "CalculateDrawAspectRatio (example_mode Stretch False) (example_game four_thirds False)
     (example_presenter 0 0) = NaN \<and>
   ScaleToDisplayAspectRatio (example_mode Stretch False) (example_game four_thirds False)
     (example_presenter 0 0) 640 528 = (NaN, Finite 528) \<and>
   ApplyStandardAspectCrop (example_mode Stretch False) (example_game four_thirds False)
     NaN (Finite 528) = (NaN, Finite 528) \<and>
   std_ceil NaN = NaN \<and>
   int_of_float NaN = None \<and>
   CalculateOutputDimensions (example_mode Stretch False) (example_game four_thirds False)
     (example_presenter 0 0) 640 528 = None \<and>
   CalculateOutputDimensions (example_mode Auto False) (example_game four_thirds False)
     (example_presenter 1280 720) 2147483647 1 = None \<and>
   CalculateOutputDimensions (example_mode Auto False) (example_game four_thirds False)
     (example_presenter 1280 720) 640 528 = Some (704, 528) \<and>
   CalculateOutputDimensions (example_mode Auto False) (example_game four_thirds False)
     (example_presenter 1280 720) 0 (- 5) = Some (0, 0) \<and>
   CalculateOutputDimensions (example_mode Auto False) (example_game (Finite (3 / 2)) False)
     (example_presenter 1280 720) 640 528 = Some (792, 528) \<and>
   CalculateOutputDimensions (example_mode Auto True) (example_game (Finite (3 / 2)) False)
     (example_presenter 1280 720) 640 528 = Some (704, 528) \<and>
   CalculateOutputDimensions (example_mode AnalogWide False) (example_game four_thirds False)
     (example_presenter 3440 1440) 3440 1440 = Some (3440, 1936)"
  by code_simp

theorem CalculateOutputDimensions_stretch_empty_backbuffer_witness:
  "bCrop (example_mode Auto True) \<and>
   aspect_mode (example_mode Auto True) \<noteq> Stretch \<and>
   CalculateOutputDimensions (example_mode Auto True) (example_game (Finite (3 / 2)) False)
     (example_presenter 1280 720) 640 528 = Some (704, 528) \<and>
   CalculateOutputDimensions (example_mode Stretch False) (example_game four_thirds False)
     (example_presenter 0 0) 640 528 = None"
  using CalculateOutputDimensions_stretch_empty_backbuffer
  by (simp add: example_mode_def)

subsection \<open>The target rectangle\<close>

text \<open>
  One axis of \<open>UpdateDrawRectangle\<close> below the line ``ensure divisibility by 4'', for
  a scaled dimension \<open>d\<close> and a backbuffer dimension \<open>n\<close>: every step is exact.
\<close>

lemma draw_axis:
  fixes d :: rat and n :: int
  assumes "0 \<le> d" and "d \<le> 2 ^ 24" and "\<bar>n\<bar> \<le> 2 ^ 24"
  shows "int_of_float (std_ceil (Finite d)) = Some \<lceil>d\<rceil>"
    and "fsub binary32 (std_ceil (Finite d)) (float_of_int (\<lceil>d\<rceil> smod 4)) =
         Finite (of_int (\<lceil>d\<rceil> - \<lceil>d\<rceil> smod 4))"
    and "int_of_float (std_round
           (fsub binary64 (fdiv binary64 (double_of_float (float_of_int n)) (Finite 2))
              (fdiv binary64 (double_of_float (Finite (of_int (\<lceil>d\<rceil> - \<lceil>d\<rceil> smod 4)))) (Finite 2)))) =
         Some (if \<lceil>d\<rceil> - \<lceil>d\<rceil> smod 4 \<le> n then (n - (\<lceil>d\<rceil> - \<lceil>d\<rceil> smod 4) + 1) div 2
               else - ((\<lceil>d\<rceil> - \<lceil>d\<rceil> smod 4 - n + 1) div 2))"
    and "int_of_float (Finite (of_int (\<lceil>d\<rceil> - \<lceil>d\<rceil> smod 4))) = Some (\<lceil>d\<rceil> - \<lceil>d\<rceil> smod 4)"
proof -
  define c where "c = \<lceil>d\<rceil>"
  define W where "W = c - c smod 4"
  have c0: "0 \<le> c"
    using assms(1) by (simp add: c_def)
  have "d \<le> of_int (2 ^ 24)"
    using assms(2) by simp
  then have "c \<le> 2 ^ 24"
    unfolding c_def by (simp only: ceiling_le_iff)
  then have c1: "c \<le> 16777216"
    by simp
  note r = round_down_to_multiple_of_4 [OF c0, folded W_def]
  have W: "0 \<le> W" "W \<le> 16777216"
    using r(3,4) c1 by linarith+
  have n: "- 16777216 \<le> n" "n \<le> 16777216"
    using assms(3) by simp_all
  have m: "\<bar>c smod 4\<bar> \<le> 2 ^ 24"
    using r(4,5) c0 by (simp add: W_def)
  have ceil: "std_ceil (Finite d) = Finite (of_int c)"
    unfolding c_def using assms(1) by (rule std_ceil_nonneg)
  show "int_of_float (std_ceil (Finite d)) = Some \<lceil>d\<rceil>"
    unfolding ceil using c0 c1 by (simp add: c_def)
  have "fsub binary32 (std_ceil (Finite d)) (float_of_int (c smod 4)) =
        Finite (of_int (c - c smod 4))"
    unfolding ceil float_of_int_exact [OF m]
    by (rule fsub_binary32_int) (use W in \<open>simp add: W_def\<close>)
  then show "fsub binary32 (std_ceil (Finite d)) (float_of_int (\<lceil>d\<rceil> smod 4)) =
             Finite (of_int (\<lceil>d\<rceil> - \<lceil>d\<rceil> smod 4))"
    by (simp only: c_def)
  have hn: "fdiv binary64 (double_of_float (float_of_int n)) (Finite 2) = Finite (of_int n / 2)"
    unfolding float_of_int_exact [OF assms(3)]
    by (rule fdiv_binary64_half) (use n in simp)
  have hw: "fdiv binary64 (double_of_float (Finite (of_int W))) (Finite 2) = Finite (of_int W / 2)"
    by (rule fdiv_binary64_half) (use W in simp)
  have d: "\<bar>n - W\<bar> \<le> 2 ^ 25"
    using n W by simp
  have "int_of_float (std_round
           (fsub binary64 (fdiv binary64 (double_of_float (float_of_int n)) (Finite 2))
              (fdiv binary64 (double_of_float (Finite (of_int W))) (Finite 2)))) =
        Some (if 0 \<le> n - W then (n - W + 1) div 2 else - ((1 - (n - W)) div 2))"
    unfolding hn hw fsub_binary64_half [OF d] by (rule symmetric_centering [OF d])
  also have "(if 0 \<le> n - W then (n - W + 1) div 2 else - ((1 - (n - W)) div 2)) =
             (if W \<le> n then (n - W + 1) div 2 else - ((W - n + 1) div 2))"
    by (simp add: algebra_simps)
  finally show "int_of_float (std_round
           (fsub binary64 (fdiv binary64 (double_of_float (float_of_int n)) (Finite 2))
              (fdiv binary64 (double_of_float (Finite (of_int (\<lceil>d\<rceil> - \<lceil>d\<rceil> smod 4)))) (Finite 2)))) =
         Some (if \<lceil>d\<rceil> - \<lceil>d\<rceil> smod 4 \<le> n then (n - (\<lceil>d\<rceil> - \<lceil>d\<rceil> smod 4) + 1) div 2
               else - ((\<lceil>d\<rceil> - \<lceil>d\<rceil> smod 4 - n + 1) div 2))"
    by (simp only: W_def c_def)
  have "int_of_float (Finite (of_int W)) = Some W"
    by (rule int_of_float_Finite_of_int) (use W in simp_all)
  then show "int_of_float (Finite (of_int (\<lceil>d\<rceil> - \<lceil>d\<rceil> smod 4))) = Some (\<lceil>d\<rceil> - \<lceil>d\<rceil> smod 4)"
    by (simp only: W_def c_def)
qed

text \<open>
  Claim C6, as amended. In \<open>UpdateDrawRectangle\<close>, after the scaling to fill the
  backbuffer, each of the two final draw dimensions is the ceiling of the scaled
  dimension rounded down to the nearest multiple of 4: it is a multiple of 4, at most
  the ceiling of the scaled value and hence less than the scaled value plus 1, but it
  may exceed the scaled value itself. The rectangle is centred in the backbuffer: its
  left (top) bound is half the free space, a half rounded away from zero, so the
  margins of the two sides differ by at most one pixel. This holds whenever the two
  scaled dimensions, as computed in single precision, are finite, at least 0 and at
  most \<open>2 ^ 24\<close>, and the backbuffer dimensions are at most \<open>2 ^ 24\<close> in absolute
  value; then the function has a result and every step behind the scaling is exact.
\<close>

theorem UpdateDrawRectangle_rounds_ceiling_down:
  assumes "scaled_draw_size cfg em p = (Finite draw_width, Finite draw_height)"
    and "0 \<le> draw_width" and "draw_width \<le> 2 ^ 24"
    and "0 \<le> draw_height" and "draw_height \<le> 2 ^ 24"
    and "\<bar>m_backbuffer_width p\<bar> \<le> 2 ^ 24" and "\<bar>m_backbuffer_height p\<bar> \<le> 2 ^ 24"
  shows
   "\<exists>p' out. UpdateDrawRectangle cfg em p = Some (p', out) \<and>
      (let r = m_target_rectangle p';
           w = right r - left r;
           h = bottom r - top' r
       in w = \<lceil>draw_width\<rceil> - \<lceil>draw_width\<rceil> mod 4 \<and> h = \<lceil>draw_height\<rceil> - \<lceil>draw_height\<rceil> mod 4
          \<and> 4 dvd w \<and> 4 dvd h \<and> 0 \<le> w \<and> 0 \<le> h
          \<and> w \<le> \<lceil>draw_width\<rceil> \<and> h \<le> \<lceil>draw_height\<rceil>
          \<and> of_int w < draw_width + 1 \<and> of_int h < draw_height + 1
          \<and> left r = (if w \<le> m_backbuffer_width p then (m_backbuffer_width p - w + 1) div 2
                        else - ((w - m_backbuffer_width p + 1) div 2))
          \<and> top' r = (if h \<le> m_backbuffer_height p then (m_backbuffer_height p - h + 1) div 2
                        else - ((h - m_backbuffer_height p + 1) div 2))
          \<and> \<bar>left r - (m_backbuffer_width p - right r)\<bar> \<le> 1
          \<and> \<bar>top' r - (m_backbuffer_height p - bottom r)\<bar> \<le> 1)"
proof -
  define W where "W = \<lceil>draw_width\<rceil> - \<lceil>draw_width\<rceil> smod 4"
  define H where "H = \<lceil>draw_height\<rceil> - \<lceil>draw_height\<rceil> smod 4"
  define L where "L = (if W \<le> m_backbuffer_width p then (m_backbuffer_width p - W + 1) div 2
                       else - ((W - m_backbuffer_width p + 1) div 2))"
  define T where "T = (if H \<le> m_backbuffer_height p then (m_backbuffer_height p - H + 1) div 2
                       else - ((H - m_backbuffer_height p + 1) div 2))"
  have dw: "0 \<le> \<lceil>draw_width\<rceil>" and dh: "0 \<le> \<lceil>draw_height\<rceil>"
    using assms(2,4) by simp_all
  note rw = round_down_to_multiple_of_4 [OF dw, folded W_def]
    and rh = round_down_to_multiple_of_4 [OF dh, folded H_def]
  note aw = draw_axis [OF assms(2,3,6), folded W_def, folded L_def]
    and ah = draw_axis [OF assms(4,5,7), folded H_def, folded T_def]
  obtain out where u: "UpdateDrawRectangle cfg em p =
      Some (p\<lparr>m_target_rectangle := \<lparr>left = L, top' = T, right = L + W, bottom = T + H\<rparr>\<rparr>, out)"
    by (simp add: UpdateDrawRectangle_def Let_def split_beta assms(1) aw ah
        del: std_ceil.simps std_round.simps int_of_float.simps)
  have Lc: "\<bar>L - (m_backbuffer_width p - (L + W))\<bar> \<le> 1"
    unfolding L_def by presburger
  have Tc: "\<bar>T - (m_backbuffer_height p - (T + H))\<bar> \<le> 1"
    unfolding T_def by presburger
  have lw: "of_int W < draw_width + 1" and lh: "of_int H < draw_height + 1"
    using rw(4) rh(4) by linarith+
  have sel: "right \<lparr>left = L, top' = T, right = L + W, bottom = T + H\<rparr>
               - left \<lparr>left = L, top' = T, right = L + W, bottom = T + H\<rparr> = W"
    "bottom \<lparr>left = L, top' = T, right = L + W, bottom = T + H\<rparr>
       - top' \<lparr>left = L, top' = T, right = L + W, bottom = T + H\<rparr> = H"
    "left \<lparr>left = L, top' = T, right = L + W, bottom = T + H\<rparr> = L"
    "top' \<lparr>left = L, top' = T, right = L + W, bottom = T + H\<rparr> = T"
    "right \<lparr>left = L, top' = T, right = L + W, bottom = T + H\<rparr> = L + W"
    "bottom \<lparr>left = L, top' = T, right = L + W, bottom = T + H\<rparr> = T + H"
    by simp_all
  have r: "m_target_rectangle
             (p\<lparr>m_target_rectangle := \<lparr>left = L, top' = T, right = L + W, bottom = T + H\<rparr>\<rparr>) =
           \<lparr>left = L, top' = T, right = L + W, bottom = T + H\<rparr>"
    by simp
  have body: "W = \<lceil>draw_width\<rceil> - \<lceil>draw_width\<rceil> mod 4 \<and> H = \<lceil>draw_height\<rceil> - \<lceil>draw_height\<rceil> mod 4
          \<and> 4 dvd W \<and> 4 dvd H \<and> 0 \<le> W \<and> 0 \<le> H
          \<and> W \<le> \<lceil>draw_width\<rceil> \<and> H \<le> \<lceil>draw_height\<rceil>
          \<and> of_int W < draw_width + 1 \<and> of_int H < draw_height + 1
          \<and> L = (if W \<le> m_backbuffer_width p then (m_backbuffer_width p - W + 1) div 2
                        else - ((W - m_backbuffer_width p + 1) div 2))
          \<and> T = (if H \<le> m_backbuffer_height p then (m_backbuffer_height p - H + 1) div 2
                        else - ((H - m_backbuffer_height p + 1) div 2))
          \<and> \<bar>L - (m_backbuffer_width p - (L + W))\<bar> \<le> 1
          \<and> \<bar>T - (m_backbuffer_height p - (T + H))\<bar> \<le> 1"
    using rw(1,2,3,4) rh(1,2,3,4) L_def T_def Lc Tc lw lh by blast
  show ?thesis
    unfolding u
    apply (rule exI [of _ "p\<lparr>m_target_rectangle := \<lparr>left = L, top' = T, right = L + W, bottom = T + H\<rparr>\<rparr>"])
    apply (rule exI [of _ out])
    unfolding Let_def r sel add_diff_cancel_left'
    using body by blast
qed

text \<open>
  Claim C6 as stated fails: the final dimension can exceed the unrounded value. With
  an aspect ratio of 3/2 in a backbuffer of 1000 by 405 the scaled width is 607.5,
  and the final width is 608.
\<close>

theorem UpdateDrawRectangle_exceeds_scaled_width:
  "scaled_draw_size (example_mode Auto False) (example_game (Finite (3 / 2)) False)
     (example_presenter 1000 405) = (Finite (1215 / 2), Finite 405) \<and>
   map_option (m_target_rectangle \<circ> fst)
     (UpdateDrawRectangle (example_mode Auto False) (example_game (Finite (3 / 2)) False)
        (example_presenter 1000 405)) =
     Some \<lparr>left = 196, top' = 1, right = 804, bottom = 405\<rparr> \<and>
   \<not> rat_of_int (804 - 196) \<le> 1215 / 2"
  by code_simp

theorem UpdateDrawRectangle_rounds_ceiling_down_witness:
  "scaled_draw_size (example_mode Auto False) (example_game four_thirds False)
     (example_presenter 1280 720) = (Finite 960, Finite 720) \<and>
   (0::rat) \<le> 960 \<and> (960::rat) \<le> 2 ^ 24 \<and> (0::rat) \<le> 720 \<and> (720::rat) \<le> 2 ^ 24 \<and>
   \<bar>m_backbuffer_width (example_presenter 1280 720)\<bar> \<le> 2 ^ 24 \<and>
   \<bar>m_backbuffer_height (example_presenter 1280 720)\<bar> \<le> 2 ^ 24 \<and>
   map_option (m_target_rectangle \<circ> fst)
     (UpdateDrawRectangle (example_mode Auto False) (example_game four_thirds False)
        (example_presenter 1280 720)) =
     Some \<lparr>left = 160, top' = 0, right = 1120, bottom = 720\<rparr>"
proof -
  have d: "scaled_draw_size (example_mode Auto False) (example_game four_thirds False)
             (example_presenter 1280 720) = (Finite 960, Finite 720)"
    by code_simp
  have n: "(0::rat) \<le> 960" "(960::rat) \<le> 2 ^ 24" "(0::rat) \<le> 720" "(720::rat) \<le> 2 ^ 24"
    by simp_all
  have b: "\<bar>m_backbuffer_width (example_presenter 1280 720)\<bar> \<le> 2 ^ 24"
    "\<bar>m_backbuffer_height (example_presenter 1280 720)\<bar> \<le> 2 ^ 24"
    by (simp_all add: example_presenter_def)
  from UpdateDrawRectangle_rounds_ceiling_down [OF d n b] obtain p' out where
    u: "UpdateDrawRectangle (example_mode Auto False) (example_game four_thirds False)
          (example_presenter 1280 720) = Some (p', out)"
    and r: "let r = m_target_rectangle p'; w = right r - left r; h = bottom r - top' r
            in w = \<lceil>960::rat\<rceil> - \<lceil>960::rat\<rceil> mod 4 \<and> h = \<lceil>720::rat\<rceil> - \<lceil>720::rat\<rceil> mod 4
          \<and> 4 dvd w \<and> 4 dvd h \<and> 0 \<le> w \<and> 0 \<le> h
          \<and> w \<le> \<lceil>960::rat\<rceil> \<and> h \<le> \<lceil>720::rat\<rceil>
          \<and> of_int w < (960::rat) + 1 \<and> of_int h < (720::rat) + 1
          \<and> left r = (if w \<le> m_backbuffer_width (example_presenter 1280 720)
                        then (m_backbuffer_width (example_presenter 1280 720) - w + 1) div 2
                        else - ((w - m_backbuffer_width (example_presenter 1280 720) + 1) div 2))
          \<and> top' r = (if h \<le> m_backbuffer_height (example_presenter 1280 720)
                        then (m_backbuffer_height (example_presenter 1280 720) - h + 1) div 2
                        else - ((h - m_backbuffer_height (example_presenter 1280 720) + 1) div 2))
          \<and> \<bar>left r - (m_backbuffer_width (example_presenter 1280 720) - right r)\<bar> \<le> 1
          \<and> \<bar>top' r - (m_backbuffer_height (example_presenter 1280 720) - bottom r)\<bar> \<le> 1"
    by blast
  have w: "right (m_target_rectangle p') - left (m_target_rectangle p') = 960"
    and h: "bottom (m_target_rectangle p') - top' (m_target_rectangle p') = 720"
    using r by (simp_all add: Let_def)
  have "left (m_target_rectangle p') = 160" and "top' (m_target_rectangle p') = 0"
    using r unfolding Let_def w h by (simp_all add: example_presenter_def)
  with w h have "m_target_rectangle p' = \<lparr>left = 160, top' = 0, right = 1120, bottom = 720\<rparr>"
    by (cases "m_target_rectangle p'") simp
  then show ?thesis
    using d n b u by simp
qed

text \<open>
  The rectangle for some states outside the ordinary. A backbuffer of height 0 gives a
  rectangle without extent; before the first \<open>SetBackbuffer\<close> the backbuffer is 0 by 0,
  and in mode \<open>Stretch\<close> the scaled dimensions are then NaN, whose conversion to \<open>int\<close>
  is undefined. In mode \<open>Stretch\<close> with a backbuffer of 923 by 1117 the aspect ratio,
  rounded, scales the width to slightly more than 923, and the rectangle is 924 wide.
\<close>

lemma UpdateDrawRectangle_examples:
  "map_option (m_target_rectangle \<circ> fst)
     (UpdateDrawRectangle (example_mode Auto False) (example_game four_thirds False)
        (example_presenter 640 0)) =
     Some \<lparr>left = 320, top' = 0, right = 320, bottom = 0\<rparr> \<and>
   map_option (m_target_rectangle \<circ> fst)
     (UpdateDrawRectangle (example_mode Auto False) (example_game four_thirds False)
        (example_presenter 0 0)) =
     Some \<lparr>left = 0, top' = 0, right = 0, bottom = 0\<rparr> \<and>
   scaled_draw_size (example_mode Stretch False) (example_game four_thirds False)
     (example_presenter 0 0) = (NaN, NaN) \<and>
   UpdateDrawRectangle (example_mode Stretch False) (example_game four_thirds False)
     (example_presenter 0 0) = None \<and>
   scaled_draw_size (example_mode Stretch False) (example_game four_thirds False)
     (example_presenter 923 1117) = (Finite (15122433 / 16384), Finite 1117) \<and>
   map_option (m_target_rectangle \<circ> fst)
     (UpdateDrawRectangle (example_mode Stretch False) (example_game four_thirds False)
        (example_presenter 923 1117)) =
     Some \<lparr>left = - 1, top' = 1, right = 923, bottom = 1117\<rparr>"
  by code_simp

end
